theory Spec2Isabelle
  imports Main
begin

section \<open>The objects of the pod registry\<close>

text \<open>
  The API types are declared outside the files verified here. Each struct is a record of
  the fields the registry code reads or writes; what remains of \<open>api.PodSpec\<close> and
  \<open>api.PodStatus\<close> is one field each (\<open>spec_rest\<close>, \<open>status_rest\<close>), which the binding
  code never touches. A Go \<open>map[string]string\<close> may be nil, so an annotation map is an
  optional partial function: \<open>None\<close> is the nil map, \<open>Some Map.empty\<close> the empty one.
\<close>

type_synonym annotations = "(string \<rightharpoonup> string) option"

record ObjectReference =
  ref_Kind :: string
  ref_Name :: string

record Binding =
  binding_Name :: string
  binding_Annotations :: annotations
  binding_Target :: ObjectReference

record PodSpec =
  spec_Host :: string
  spec_rest :: string

record PodStatus =
  status_Host :: string
  status_rest :: string

record Pod =
  pod_Name :: string
  pod_Annotations :: annotations
  pod_Spec :: PodSpec
  pod_Status :: PodStatus

record api_Status =
  status_Status :: string

definition StatusSuccess :: string where
  "StatusSuccess = ''Success''"

text \<open>\<open>runtime.Object\<close>: the dynamic types that reach this code.\<close>

datatype Object = PodObject Pod | BindingObject Binding | StatusObject api_Status

text \<open>\<open>api.Context\<close>; the registry only hands it to the key function.\<close>

datatype Context = Context (ctx_namespace: "string option")

section \<open>Errors\<close>

text \<open>
  A Go \<open>error\<close> is a value of one of these shapes. \<open>Errorf\<close> keeps the format string of
  a \<open>fmt.Errorf\<close> call and its arguments in order. The constructors \<open>NewNotFound\<close>,
  \<open>NewConflict\<close>, \<open>NewInvalid\<close> and \<open>NewBadRequest\<close> are the \<open>*errors.StatusError\<close>
  values built by the functions of these names with these arguments; \<open>NewConflict\<close>
  carries the error it was built from. \<open>EtcdNotFound\<close> and \<open>EtcdTestFailed\<close> are the
  store's "key not found" and "compare failed" errors; \<open>OtherError\<close> is any other error
  value, such as a timeout or a refused connection.
\<close>

datatype fmt_arg = Str string | Obj Object

datatype ValidationError =
    NewFieldInvalid string string string
  | NewFieldRequired string

datatype go_error =
    EtcdNotFound
  | EtcdTestFailed
  | OtherError string
  | Errorf string "fmt_arg list"
  | NewNotFound string string
  | NewConflict string string go_error
  | NewInvalid string string "ValidationError list"
  | NewBadRequest string

text \<open>The type assertion \<open>err.(*errors.StatusError)\<close>.\<close>

fun is_StatusError :: "go_error \<Rightarrow> bool" where
  "is_StatusError (NewNotFound kind name) = True"
| "is_StatusError (NewConflict kind name err) = True"
| "is_StatusError (NewInvalid kind name errs) = True"
| "is_StatusError (NewBadRequest reason) = True"
| "is_StatusError err = False"

text \<open>
  Modelled from the spec: \<open>etcderr.InterpretGetError\<close> is not among the files verified
  here. The spec: a "not found" store error becomes NotFound. Every other error is left
  as it is.
\<close>

definition InterpretGetError :: "go_error \<Rightarrow> string \<Rightarrow> string \<Rightarrow> go_error" where
  "InterpretGetError err kind name =
     (if err = EtcdNotFound then NewNotFound kind name else err)"

text \<open>
  Modelled from the spec: \<open>etcderr.InterpretUpdateError\<close> is not among the files verified
  here. The spec: an "update conflict" becomes Conflict. Every other error is left as it
  is.
\<close>

definition InterpretUpdateError :: "go_error \<Rightarrow> string \<Rightarrow> string \<Rightarrow> go_error" where
  "InterpretUpdateError err kind name =
     (if err = EtcdTestFailed then NewConflict kind name err else err)"

section \<open>The versioned store\<close>

text \<open>
  Modelled from the spec: the store behind \<open>tools.EtcdHelper\<close> is not among the files
  verified here. The spec: a key-value store where every value carries a version that
  only the store increases, with a read and a compare-and-swap that succeeds only if the
  version is the one last read; a store call may also fail with a transient error.
  Under each key the state holds an object and the index of its last modification.
  \<open>get_err\<close> and \<open>cas_err\<close> are the failure, if any, with which a read and a
  compare-and-swap round trip end (a timeout, a lost connection); \<open>retries\<close> caps how often
  one update is tried again after a failed comparison.
\<close>

record EtcdHelper =
  nodes :: "string \<rightharpoonup> Object \<times> nat"
  get_err :: "go_error option"
  cas_err :: "go_error option"
  retries :: nat

text \<open>Modelled from the spec: the read of a key, with its index.\<close>

definition etcd_get :: "string \<Rightarrow> EtcdHelper \<Rightarrow> go_error + Object \<times> nat" where
  "etcd_get key h =
     (case get_err h of
        Some e \<Rightarrow> Inl e
      | None \<Rightarrow> (case nodes h key of None \<Rightarrow> Inl EtcdNotFound | Some node \<Rightarrow> Inr node))"

text \<open>
  Modelled from the spec: the compare-and-swap writes \<open>new\<close> only if the key's index is
  still \<open>index\<close>, and fails with the store's update conflict otherwise.
\<close>

definition etcd_cas :: "string \<Rightarrow> Object \<Rightarrow> nat \<Rightarrow> EtcdHelper \<Rightarrow> go_error option \<times> EtcdHelper" where
  "etcd_cas key new index h =
     (case cas_err h of
        Some e \<Rightarrow> (Some e, h)
      | None \<Rightarrow>
          (case nodes h key of
             None \<Rightarrow> (Some EtcdNotFound, h)
           | Some (old, i) \<Rightarrow>
               if i = index then (None, h\<lparr>nodes := (nodes h)(key \<mapsto> (new, Suc i))\<rparr>)
               else (Some EtcdTestFailed, h)))"

type_synonym EtcdUpdateFunc = "Object \<Rightarrow> go_error + Object \<times> nat"

text \<open>
  Modelled from the spec: \<open>tools.EtcdHelper.AtomicUpdate\<close> is not among the files verified
  here. The spec: an atomic update-if-unchanged at a key with a caller-supplied mutation
  function; a rejection by the mutation function fails the whole attempt and is the
  error returned; the compare-and-swap is retried on a version conflict, a capped number
  of times, and surfaces the conflict when the retries are used up. The only caller here
  passes \<open>ignoreNotFound = false\<close>: a missing key is the store's not-found error.
  The result is the error (\<open>None\<close> is nil), the object the last successful call of the
  mutation function returned, and the store afterwards. \<open>final\<close> is that object from
  earlier attempts.
\<close>

fun AtomicUpdate_loop ::
  "nat \<Rightarrow> string \<Rightarrow> EtcdUpdateFunc \<Rightarrow> Object option \<Rightarrow> EtcdHelper \<Rightarrow>
   go_error option \<times> Object option \<times> EtcdHelper" where
  "AtomicUpdate_loop n key tryUpdate final h =
     (case etcd_get key h of
        Inl e \<Rightarrow> (Some e, final, h)
      | Inr (obj, index) \<Rightarrow>
          (case tryUpdate obj of
             Inl e \<Rightarrow> (Some e, final, h)
           | Inr (ret, ttl) \<Rightarrow>
               (case etcd_cas key ret index h of
                  (None, h') \<Rightarrow> (None, Some ret, h')
                | (Some e, h') \<Rightarrow>
                    (case n of
                       Suc m \<Rightarrow>
                         if e = EtcdTestFailed then AtomicUpdate_loop m key tryUpdate (Some ret) h'
                         else (Some e, Some ret, h')
                     | 0 \<Rightarrow> (Some e, Some ret, h')))))"

text \<open>Modelled from the spec: \<open>AtomicUpdate\<close> is the loop with the store's retries.\<close>

definition AtomicUpdate ::
  "string \<Rightarrow> EtcdUpdateFunc \<Rightarrow> EtcdHelper \<Rightarrow> go_error option \<times> Object option \<times> EtcdHelper" where
  "AtomicUpdate key tryUpdate h = AtomicUpdate_loop (retries h) key tryUpdate None h"

section \<open>The binding endpoint\<close>

text \<open>
  \<open>etcdgeneric.Etcd\<close>, as far as the binding and status endpoints use it. The key function
  is a field of the struct; \<open>Inl\<close> is its error. The name function returns \<open>None\<close> where
  its unchecked type assertion panics. An update strategy is what the store keeps of a
  new object given the old one; \<open>None\<close> is an unset strategy or hook.
\<close>

record RESTStrategy =
  PrepareForUpdate :: "Pod \<Rightarrow> Pod \<Rightarrow> Pod"

record Etcd =
  KeyFunc :: "Context \<Rightarrow> string \<Rightarrow> go_error + string"
  ObjectNameFunc :: "Object \<Rightarrow> (go_error + string) option"
  EndpointName :: string
  CreateStrategy :: "RESTStrategy option"
  UpdateStrategy :: "RESTStrategy option"
  DeleteStrategy :: "RESTStrategy option"
  ReturnDeletedObject :: bool
  AfterUpdate :: "(Object \<Rightarrow> go_error option) option"
  AfterDelete :: "(Object \<Rightarrow> go_error option) option"

record BindingREST =
  binding_store :: Etcd

text \<open>The body of \<open>for k, v := range annotations { m[k] = v }\<close>; a nil map has no entries.\<close>

definition range_assign :: "annotations \<Rightarrow> (string \<rightharpoonup> string) \<Rightarrow> (string \<rightharpoonup> string)" where
  "range_assign annotations m = (case annotations of None \<Rightarrow> m | Some a \<Rightarrow> m ++ a)"

text \<open>The function literal that \<open>setPodHostAndAnnotations\<close> passes to \<open>AtomicUpdate\<close>.\<close>

definition setPodHostAndAnnotations_func ::
  "string \<Rightarrow> string \<Rightarrow> annotations \<Rightarrow> EtcdUpdateFunc" where
  "setPodHostAndAnnotations_func oldMachine machine annotations obj =
     (case obj of
        PodObject pod \<Rightarrow>
          if spec_Host (pod_Spec pod) \<noteq> oldMachine \<or> status_Host (pod_Status pod) \<noteq> oldMachine
          then Inl (Errorf ''pod %v is already assigned to host %q or %q''
                      [Str (pod_Name pod), Str (spec_Host (pod_Spec pod)),
                       Str (status_Host (pod_Status pod))])
          else Inr (PodObject (pod
                 \<lparr>pod_Spec := (pod_Spec pod)\<lparr>spec_Host := machine\<rparr>,
                  pod_Status := (pod_Status pod)\<lparr>status_Host := machine\<rparr>,
                  pod_Annotations := Some (range_assign annotations
                     (case pod_Annotations pod of None \<Rightarrow> Map.empty | Some m \<Rightarrow> m))\<rparr>), 0)
      | _ \<Rightarrow> Inl (Errorf ''unexpected object: %#v'' [Obj obj]))"

text \<open>
  \<open>finalPod\<close> is what the function literal last assigned to it: the pod of its last
  successful call.
\<close>

definition setPodHostAndAnnotations ::
  "BindingREST \<Rightarrow> Context \<Rightarrow> string \<Rightarrow> string \<Rightarrow> string \<Rightarrow> annotations \<Rightarrow> EtcdHelper \<Rightarrow>
   Pod option \<times> go_error option \<times> EtcdHelper" where
  "setPodHostAndAnnotations r ctx podID oldMachine machine annotations h =
     (case KeyFunc (binding_store r) ctx podID of
        Inl err \<Rightarrow> (None, Some err, h)
      | Inr podKey \<Rightarrow>
          (case AtomicUpdate podKey (setPodHostAndAnnotations_func oldMachine machine annotations) h of
             (err, final, h') \<Rightarrow>
               ((case final of Some (PodObject pod) \<Rightarrow> Some pod | _ \<Rightarrow> None), err, h')))"

text \<open>The translation \<open>assignPod\<close> applies to a non-nil error.\<close>

definition assignPod_err :: "string \<Rightarrow> go_error \<Rightarrow> go_error" where
  "assignPod_err podID err0 =
     (let err1 = InterpretGetError err0 ''pod'' podID;
          err2 = InterpretUpdateError err1 ''pod'' podID
      in if \<not> is_StatusError err2 then NewConflict ''binding'' podID err2 else err2)"

definition assignPod ::
  "BindingREST \<Rightarrow> Context \<Rightarrow> string \<Rightarrow> string \<Rightarrow> annotations \<Rightarrow> EtcdHelper \<Rightarrow>
   go_error option \<times> EtcdHelper" where
  "assignPod r ctx podID machine annotations h =
     (case setPodHostAndAnnotations r ctx podID '''' machine annotations h of
        (finalPod, Some err, h') \<Rightarrow> (Some (assignPod_err podID err), h')
      | (finalPod, None, h') \<Rightarrow> (None, h'))"

text \<open>
  \<open>Create\<close> returns \<open>(out, err)\<close> and the store. The unchecked type assertion
  \<open>obj.(*api.Binding)\<close> panics on any other object: the result \<open>None\<close>.
\<close>

definition kind_message :: string where
  "kind_message = ''must be empty, '' @ [CHR 0x27] @ ''Node'' @ [CHR 0x27] @ '', or ''
     @ [CHR 0x27] @ ''Minion'' @ [CHR 0x27]"

definition Create ::
  "BindingREST \<Rightarrow> Context \<Rightarrow> Object \<Rightarrow> EtcdHelper \<Rightarrow>
   ((Object option \<times> go_error option) \<times> EtcdHelper) option" where
  "Create r ctx obj h =
     (case obj of
        BindingObject binding \<Rightarrow>
          Some
            (if length (ref_Kind (binding_Target binding)) \<noteq> 0 \<and>
                (ref_Kind (binding_Target binding) \<noteq> ''Node'' \<and>
                 ref_Kind (binding_Target binding) \<noteq> ''Minion'')
             then ((None, Some (NewInvalid ''binding'' (binding_Name binding)
                      [NewFieldInvalid ''to.kind'' (ref_Kind (binding_Target binding)) kind_message])), h)
             else if length (ref_Name (binding_Target binding)) = 0
             then ((None, Some (NewInvalid ''binding'' (binding_Name binding)
                      [NewFieldRequired ''to.name''])), h)
             else (case assignPod r ctx (binding_Name binding) (ref_Name (binding_Target binding))
                          (binding_Annotations binding) h of
                     (err, h') \<Rightarrow>
                       ((Some (StatusObject \<lparr>status_Status = StatusSuccess\<rparr>), err), h')))
      | _ \<Rightarrow> None)"

section \<open>The status endpoint and the assembly of the storage\<close>

text \<open>\<open>podLifecycle\<close>: both hooks return nil.\<close>

definition podLifecycle_AfterUpdate :: "Object \<Rightarrow> go_error option" where
  "podLifecycle_AfterUpdate obj = None"

definition podLifecycle_AfterDelete :: "Object \<Rightarrow> go_error option" where
  "podLifecycle_AfterDelete obj = None"

text \<open>
  Modelled from the spec: \<open>pod.StatusStrategy\<close> is not among the files verified here. The
  spec: the status surface is restricted to a policy that accepts changes to status-only
  fields; spec fields are preserved from the existing record regardless of what the
  caller supplies.
\<close>

definition StatusStrategy :: RESTStrategy where
  "StatusStrategy = \<lparr>PrepareForUpdate = (\<lambda>new old. new\<lparr>pod_Spec := pod_Spec old\<rparr>)\<rparr>"

text \<open>
  Modelled from the spec: \<open>etcdgeneric.Etcd.Update\<close> is not among the files verified here.
  The spec: update of one record over the versioned store under the store's update
  policy, returning the updated record. The record is found under the key of the
  payload's name; the policy decides what is kept of the payload given the existing
  record; the result is written with the store's update-if-unchanged. The results are
  the object, the "created" flag and the error. A payload that is not a pod (the name
  function panics on it), or a store with no update policy, is outside what the endpoint
  is built for: \<open>None\<close>.
\<close>

definition Update ::
  "Etcd \<Rightarrow> Context \<Rightarrow> Object \<Rightarrow> EtcdHelper \<Rightarrow>
   ((Object option \<times> bool \<times> go_error option) \<times> EtcdHelper) option" where
  "Update e ctx obj h =
     (case (ObjectNameFunc e obj, obj, UpdateStrategy e) of
        (Some (Inl err), _, _) \<Rightarrow> Some ((None, False, Some err), h)
      | (Some (Inr name), PodObject new, Some strategy) \<Rightarrow>
          Some
            (case KeyFunc e ctx name of
               Inl err \<Rightarrow> ((None, False, Some err), h)
             | Inr key \<Rightarrow>
                 (case AtomicUpdate key
                         (\<lambda>existing. case existing of
                            PodObject old \<Rightarrow> Inr (PodObject (PrepareForUpdate strategy new old), 0)
                          | _ \<Rightarrow> Inl (Errorf ''unexpected object: %#v'' [Obj existing])) h of
                    (None, out, h') \<Rightarrow> ((out, False, None), h')
                  | (Some err, out, h') \<Rightarrow> ((None, False, Some err), h')))
      | _ \<Rightarrow> None)"

record REST =
  rest_Etcd :: Etcd

record StatusREST =
  status_store :: Etcd

record LogREST =
  log_store :: Etcd

record ProxyREST =
  proxy_store :: Etcd

record PodStorage =
  storage_Pod :: REST
  storage_Binding :: BindingREST
  storage_Status :: StatusREST
  storage_Log :: LogREST
  storage_Proxy :: ProxyREST

text \<open>
  \<open>NewStorage\<close>. \<open>etcdgeneric.NamespaceKeyFunc\<close> and \<open>pod.Strategy\<close> are declared outside
  the files verified here and are parameters. The helper is the store state that every
  operation takes and returns; the kubelet client only serves the log endpoint's
  location. \<open>statusStore\<close> is a copy of the struct taken before the strategies and hooks
  of the pod endpoint are set.
\<close>

definition NewStorage ::
  "(Context \<Rightarrow> string \<Rightarrow> string \<Rightarrow> go_error + string) \<Rightarrow> RESTStrategy \<Rightarrow> PodStorage" where
  "NewStorage NamespaceKeyFunc pod_Strategy =
     (let prefix = ''/registry/pods'';
          store0 = \<lparr>KeyFunc = (\<lambda>ctx name. NamespaceKeyFunc ctx prefix name),
                    ObjectNameFunc = (\<lambda>obj. case obj of
                                              PodObject pod \<Rightarrow> Some (Inr (pod_Name pod))
                                            | _ \<Rightarrow> None),
                    EndpointName = ''pods'',
                    CreateStrategy = None, UpdateStrategy = None, DeleteStrategy = None,
                    ReturnDeletedObject = False, AfterUpdate = None, AfterDelete = None\<rparr>;
          statusStore0 = store0;
          store = store0\<lparr>CreateStrategy := Some pod_Strategy,
                          UpdateStrategy := Some pod_Strategy,
                          AfterUpdate := Some podLifecycle_AfterUpdate,
                          DeleteStrategy := Some pod_Strategy,
                          ReturnDeletedObject := True,
                          AfterDelete := Some podLifecycle_AfterDelete\<rparr>;
          statusStore = statusStore0\<lparr>UpdateStrategy := Some StatusStrategy\<rparr>
      in \<lparr>storage_Pod = \<lparr>rest_Etcd = store\<rparr>,
          storage_Binding = \<lparr>binding_store = store\<rparr>,
          storage_Status = \<lparr>status_store = statusStore\<rparr>,
          storage_Log = \<lparr>log_store = store\<rparr>,
          storage_Proxy = \<lparr>proxy_store = store\<rparr>\<rparr>)"

definition StatusREST_Update ::
  "StatusREST \<Rightarrow> Context \<Rightarrow> Object \<Rightarrow> EtcdHelper \<Rightarrow>
   ((Object option \<times> bool \<times> go_error option) \<times> EtcdHelper) option" where
  "StatusREST_Update r ctx obj h = Update (status_store r) ctx obj h"

section \<open>Concurrent calls of the binding endpoint\<close>

text \<open>
  Modelled from the spec: several callers share the store, and correctness rests on the
  store's compare-and-swap alone. One call of \<open>assignPod\<close> is then a sequence of atomic
  steps on the shared store, the two round trips of one attempt of \<open>AtomicUpdate\<close>: the
  read, after which the caller runs the mutation function on what it read, and the
  compare-and-swap of the result against the index read. Between the two, other callers
  may take steps. \<open>Ready key n\<close> is a call about to read, with \<open>n\<close> retries left;
  \<open>Swapping key ret index n\<close> is a call about to write \<open>ret\<close>; \<open>Returned err\<close> is
  a call that has returned \<open>err\<close>. \<open>call_start\<close> is the key derivation of
  \<open>setPodHostAndAnnotations\<close>, \<open>call_step\<close> one round trip of its update, ending with the
  error translation of \<open>assignPod\<close>; a call that takes all its steps with no other call in
  between returns what \<open>assignPod\<close> returns and leaves the store it leaves, which the
  theorem on the race states with it.
\<close>

datatype call =
    Ready string nat
  | Swapping string Object nat nat
  | Returned "go_error option"

type_synonym request = "string \<times> string \<times> annotations"

definition call_start :: "BindingREST \<Rightarrow> Context \<Rightarrow> EtcdHelper \<Rightarrow> request \<Rightarrow> call" where
  "call_start r ctx h req =
     (case req of (podID, machine, annotations) \<Rightarrow>
        (case KeyFunc (binding_store r) ctx podID of
           Inl err \<Rightarrow> Returned (Some (assignPod_err podID err))
         | Inr podKey \<Rightarrow> Ready podKey (retries h)))"

definition call_step :: "request \<Rightarrow> call \<Rightarrow> EtcdHelper \<Rightarrow> call \<times> EtcdHelper" where
  "call_step req c h =
     (case req of (podID, machine, annotations) \<Rightarrow>
        (case c of
           Ready key n \<Rightarrow>
             (case etcd_get key h of
                Inl e \<Rightarrow> (Returned (Some (assignPod_err podID e)), h)
              | Inr (obj, index) \<Rightarrow>
                  (case setPodHostAndAnnotations_func '''' machine annotations obj of
                     Inl e \<Rightarrow> (Returned (Some (assignPod_err podID e)), h)
                   | Inr (ret, ttl) \<Rightarrow> (Swapping key ret index n, h)))
         | Swapping key ret index n \<Rightarrow>
             (case etcd_cas key ret index h of
                (None, h') \<Rightarrow> (Returned None, h')
              | (Some e, h') \<Rightarrow>
                  (case n of
                     Suc m \<Rightarrow>
                       if e = EtcdTestFailed then (Ready key m, h')
                       else (Returned (Some (assignPod_err podID e)), h')
                   | 0 \<Rightarrow> (Returned (Some (assignPod_err podID e)), h')))
         | Returned err \<Rightarrow> (Returned err, h)))"

text \<open>
  A schedule is the order in which the callers take their steps: entry \<open>j\<close> lets call
  \<open>j\<close> take its next step. Every interleaving of the calls is some schedule.
\<close>

definition sched_step :: "request list \<Rightarrow> nat \<Rightarrow> call list \<times> EtcdHelper \<Rightarrow> call list \<times> EtcdHelper" where
  "sched_step reqs j s =
     (case s of (cs, h) \<Rightarrow>
        if j < length cs \<and> j < length reqs
        then (case call_step (reqs ! j) (cs ! j) h of (c', h') \<Rightarrow> (cs[j := c'], h'))
        else (cs, h))"

definition run_calls ::
  "BindingREST \<Rightarrow> Context \<Rightarrow> request list \<Rightarrow> nat list \<Rightarrow> EtcdHelper \<Rightarrow> call list \<times> EtcdHelper" where
  "run_calls r ctx reqs sched h = fold (sched_step reqs) sched (map (call_start r ctx h) reqs, h)"

fun is_Conflict :: "go_error option \<Rightarrow> bool" where
  "is_Conflict (Some (NewConflict kind name err)) = True"
| "is_Conflict err = False"

fun is_NotFound :: "go_error option \<Rightarrow> bool" where
  "is_NotFound (Some (NewNotFound kind name)) = True"
| "is_NotFound err = False"

text \<open>The entries of a map that may be nil: reading a nil map finds nothing.\<close>

fun entries :: "annotations \<Rightarrow> (string \<rightharpoonup> string)" where
  "entries None = Map.empty"
| "entries (Some m) = m"

text \<open>
  For the race of several calls on the unassigned pod \<open>pod\<close> stored under \<open>key\<close> at index
  \<open>i\<close> in the store \<open>h0\<close>: what holds of the calls while nothing has been written
  (\<open>racing\<close>: the store is \<open>h0\<close>, and a call about to write holds what the mutation function
  made of \<open>pod\<close> for its request), and once call \<open>w\<close> has written (\<open>decided\<close>: the store is
  \<open>h0\<close> with the object of call \<open>w\<close> under \<open>key\<close>, and every other call is still on its way
  with what it read at index \<open>i\<close>, or has returned a Conflict). \<open>steps_left\<close> bounds the steps
  a call can still take.
\<close>

fun steps_left :: "call \<Rightarrow> nat" where
  "steps_left (Ready key n) = 2 * n + 2"
| "steps_left (Swapping key ret index n) = 2 * n + 1"
| "steps_left (Returned err) = 0"

fun racing_call :: "string \<Rightarrow> nat \<Rightarrow> Pod \<Rightarrow> request \<Rightarrow> call \<Rightarrow> bool" where
  "racing_call key i pod req (Ready k n) = (k = key)"
| "racing_call key i pod req (Swapping k ret index n) =
     (k = key \<and> index = i \<and>
      setPodHostAndAnnotations_func '''' (fst (snd req)) (snd (snd req)) (PodObject pod) =
        Inr (ret, 0))"
| "racing_call key i pod req (Returned err) = False"

fun losing_call :: "string \<Rightarrow> nat \<Rightarrow> call \<Rightarrow> bool" where
  "losing_call key i (Ready k n) = (k = key)"
| "losing_call key i (Swapping k ret index n) = (k = key \<and> index = i)"
| "losing_call key i (Returned err) = is_Conflict err"

definition racing ::
  "string \<Rightarrow> nat \<Rightarrow> Pod \<Rightarrow> request list \<Rightarrow> EtcdHelper \<Rightarrow> call list \<times> EtcdHelper \<Rightarrow> bool" where
  "racing key i pod reqs h0 s =
     (case s of (cs, h) \<Rightarrow>
        h = h0 \<and> length cs = length reqs \<and>
        (\<forall>j < length reqs. racing_call key i pod (reqs ! j) (cs ! j)))"

definition decided ::
  "string \<Rightarrow> nat \<Rightarrow> Pod \<Rightarrow> request list \<Rightarrow> EtcdHelper \<Rightarrow> nat \<Rightarrow> call list \<times> EtcdHelper \<Rightarrow> bool" where
  "decided key i pod reqs h0 w s =
     (case s of (cs, h) \<Rightarrow>
        length cs = length reqs \<and> w < length reqs \<and> cs ! w = Returned None \<and>
        (\<exists>ret. setPodHostAndAnnotations_func '''' (fst (snd (reqs ! w))) (snd (snd (reqs ! w)))
                  (PodObject pod) = Inr (ret, 0)
               \<and> h = h0\<lparr>nodes := (nodes h0)(key \<mapsto> (ret, Suc i))\<rparr>) \<and>
        (\<forall>j < length reqs. j \<noteq> w \<longrightarrow> losing_call key i (cs ! j)))"

section \<open>Concrete inputs\<close>

text \<open>
  A key function in the shape the spec gives it (it fails on an empty name), the binding
  endpoint over it, an unassigned pod \<open>web\<close> with one annotation, and a store holding it.
\<close>

definition ex_KeyFunc :: "Context \<Rightarrow> string \<Rightarrow> string \<Rightarrow> go_error + string" where
  "ex_KeyFunc ctx prefix name =
     (if name = '''' then Inl (OtherError ''invalid identifier'')
      else Inr (prefix @ ''/'' @ name))"

definition ex_Strategy :: RESTStrategy where
  "ex_Strategy = \<lparr>PrepareForUpdate = (\<lambda>new old. new)\<rparr>"

definition ex_storage :: PodStorage where
  "ex_storage = NewStorage ex_KeyFunc ex_Strategy"

definition ex_ctx :: Context where
  "ex_ctx = Context (Some ''default'')"

definition ex_pod :: Pod where
  "ex_pod = \<lparr>pod_Name = ''web'', pod_Annotations = Some [''b'' \<mapsto> ''2''],
             pod_Spec = \<lparr>spec_Host = '''', spec_rest = ''nginx''\<rparr>,
             pod_Status = \<lparr>status_Host = '''', status_rest = ''Pending''\<rparr>\<rparr>"

definition ex_helper :: "Pod \<Rightarrow> EtcdHelper" where
  "ex_helper pod =
     \<lparr>nodes = [''/registry/pods/web'' \<mapsto> (PodObject pod, 7)],
      get_err = None, cas_err = None, retries = 2\<rparr>"

definition ex_binding :: "string \<Rightarrow> string \<Rightarrow> annotations \<Rightarrow> Binding" where
  "ex_binding kind host annotations =
     \<lparr>binding_Name = ''web'', binding_Annotations = annotations,
      binding_Target = \<lparr>ref_Kind = kind, ref_Name = host\<rparr>\<rparr>"

text \<open>The same pod once bound to \<open>node-1\<close>.\<close>

definition ex_bound_pod :: Pod where
  "ex_bound_pod =
     ex_pod\<lparr>pod_Spec := \<lparr>spec_Host = ''node-1'', spec_rest = ''nginx''\<rparr>,
            pod_Status := \<lparr>status_Host = ''node-1'', status_rest = ''Pending''\<rparr>\<rparr>"

text \<open>
  Two callers binding \<open>web\<close> to different hosts, and an order of their steps: both read
  the unassigned pod, the second writes first, the first then fails its comparison,
  reads again and is rejected.
\<close>

definition ex_reqs :: "request list" where
  "ex_reqs = [(''web'', ''node-1'', None), (''web'', ''node-2'', Some [''a'' \<mapsto> ''1''])]"

definition ex_sched :: "nat list" where
  "ex_sched = [0, 1, 1, 0, 0, 0, 0, 0, 0, 1, 1, 1, 1]"

text \<open>A status update of \<open>web\<close> whose payload also changes the spec.\<close>

definition ex_status_update :: Pod where
  "ex_status_update =
     \<lparr>pod_Name = ''web'', pod_Annotations = Some [''b'' \<mapsto> ''2''],
      pod_Spec = \<lparr>spec_Host = ''node-9'', spec_rest = ''busybox''\<rparr>,
      pod_Status = \<lparr>status_Host = ''node-1'', status_rest = ''Running''\<rparr>\<rparr>"

section \<open>One update of the store\<close>

declare AtomicUpdate_loop.simps [simp del]

lemma etcd_get_found:
  "get_err h = None \<Longrightarrow> nodes h key = Some (obj, i) \<Longrightarrow> etcd_get key h = Inr (obj, i)"
  by (simp add: etcd_get_def)

lemma etcd_get_failed:
  "get_err h = Some e \<Longrightarrow> etcd_get key h = Inl e"
  by (simp add: etcd_get_def)

lemma etcd_cas_same_index:
  "cas_err h = None \<Longrightarrow> nodes h key = Some (obj, i) \<Longrightarrow>
   etcd_cas key ret i h = (None, h\<lparr>nodes := (nodes h)(key \<mapsto> (ret, Suc i))\<rparr>)"
  by (simp add: etcd_cas_def)

lemma etcd_cas_failed:
  "cas_err h = Some e \<Longrightarrow> etcd_cas key ret i h = (Some e, h)"
  by (simp add: etcd_cas_def)

lemma AtomicUpdate_get_fails:
  "etcd_get key h = Inl e \<Longrightarrow> AtomicUpdate key f h = (Some e, None, h)"
  by (simp add: AtomicUpdate_def AtomicUpdate_loop.simps [of _ key f None h])

lemma AtomicUpdate_rejected:
  "etcd_get key h = Inr (obj, i) \<Longrightarrow> f obj = Inl e \<Longrightarrow> AtomicUpdate key f h = (Some e, None, h)"
  by (simp add: AtomicUpdate_def AtomicUpdate_loop.simps [of _ key f None h])

lemma AtomicUpdate_written:
  "get_err h = None \<Longrightarrow> cas_err h = None \<Longrightarrow> nodes h key = Some (obj, i) \<Longrightarrow>
   f obj = Inr (ret, ttl) \<Longrightarrow>
   AtomicUpdate key f h = (None, Some ret, h\<lparr>nodes := (nodes h)(key \<mapsto> (ret, Suc i))\<rparr>)"
  by (simp add: AtomicUpdate_def AtomicUpdate_loop.simps [of _ key f None h]
      etcd_get_found etcd_cas_same_index)

lemma AtomicUpdate_write_fails:
  "get_err h = None \<Longrightarrow> cas_err h = Some e \<Longrightarrow> e \<noteq> EtcdTestFailed \<Longrightarrow>
   nodes h key = Some (obj, i) \<Longrightarrow> f obj = Inr (ret, ttl) \<Longrightarrow>
   AtomicUpdate key f h = (Some e, Some ret, h)"
  by (simp add: AtomicUpdate_def AtomicUpdate_loop.simps [of _ key f None h]
      etcd_get_found etcd_cas_failed split: nat.splits)

lemma AtomicUpdate_loop_conflict:
  "get_err h = None \<Longrightarrow> cas_err h = Some EtcdTestFailed \<Longrightarrow> nodes h key = Some (obj, i) \<Longrightarrow>
   f obj = Inr (ret, ttl) \<Longrightarrow>
   AtomicUpdate_loop n key f final h = (Some EtcdTestFailed, Some ret, h)"
  by (induction n arbitrary: final)
     (simp_all add: AtomicUpdate_loop.simps [of _ key f _ h] etcd_get_found etcd_cas_failed)

lemma AtomicUpdate_conflict:
  "get_err h = None \<Longrightarrow> cas_err h = Some EtcdTestFailed \<Longrightarrow> nodes h key = Some (obj, i) \<Longrightarrow>
   f obj = Inr (ret, ttl) \<Longrightarrow>
   AtomicUpdate key f h = (Some EtcdTestFailed, Some ret, h)"
  by (simp add: AtomicUpdate_def AtomicUpdate_loop_conflict)

section \<open>The mutation function of a binding\<close>

lemma func_assigned:
  "spec_Host (pod_Spec pod) \<noteq> '''' \<or> status_Host (pod_Status pod) \<noteq> '''' \<Longrightarrow>
   setPodHostAndAnnotations_func '''' machine annotations (PodObject pod) =
     Inl (Errorf ''pod %v is already assigned to host %q or %q''
            [Str (pod_Name pod), Str (spec_Host (pod_Spec pod)), Str (status_Host (pod_Status pod))])"
  by (auto simp: setPodHostAndAnnotations_func_def)

lemma func_unassigned:
  "spec_Host (pod_Spec pod) = '''' \<Longrightarrow> status_Host (pod_Status pod) = '''' \<Longrightarrow>
   setPodHostAndAnnotations_func '''' machine annotations (PodObject pod) =
     Inr (PodObject (pod
            \<lparr>pod_Spec := (pod_Spec pod)\<lparr>spec_Host := machine\<rparr>,
             pod_Status := (pod_Status pod)\<lparr>status_Host := machine\<rparr>,
             pod_Annotations := Some (\<lambda>k. case entries annotations k of
                                            Some v \<Rightarrow> Some v
                                          | None \<Rightarrow> entries (pod_Annotations pod) k)\<rparr>), 0)"
  by (cases annotations; cases "pod_Annotations pod")
     (auto simp: setPodHostAndAnnotations_func_def range_assign_def map_add_def fun_eq_iff
           split: option.splits)

lemma func_rejection:
  "setPodHostAndAnnotations_func '''' machine annotations (PodObject pod) = Inl e \<Longrightarrow>
   e = Errorf ''pod %v is already assigned to host %q or %q''
         [Str (pod_Name pod), Str (spec_Host (pod_Spec pod)), Str (status_Host (pod_Status pod))]"
  by (auto simp: setPodHostAndAnnotations_func_def split: if_splits)

section \<open>The error translation of \<open>assignPod\<close>\<close>

lemma assignPod_err_cases:
  "assignPod_err podID e =
     (if e = EtcdNotFound then NewNotFound ''pod'' podID
      else if e = EtcdTestFailed then NewConflict ''pod'' podID e
      else if is_StatusError e then e
      else NewConflict ''binding'' podID e)"
  by (cases e) (simp_all add: assignPod_err_def InterpretGetError_def InterpretUpdateError_def Let_def)

lemma assignPod_failed:
  "setPodHostAndAnnotations r ctx podID '''' machine annotations h = (finalPod, Some e, h') \<Longrightarrow>
   assignPod r ctx podID machine annotations h = (Some (assignPod_err podID e), h')"
  by (simp add: assignPod_def)

lemma setPod_key_fails:
  "KeyFunc (binding_store r) ctx podID = Inl e \<Longrightarrow>
   setPodHostAndAnnotations r ctx podID old machine annotations h = (None, Some e, h)"
  by (simp add: setPodHostAndAnnotations_def)

lemma setPod_get_fails:
  "KeyFunc (binding_store r) ctx podID = Inr key \<Longrightarrow> etcd_get key h = Inl e \<Longrightarrow>
   setPodHostAndAnnotations r ctx podID old machine annotations h = (None, Some e, h)"
  by (simp add: setPodHostAndAnnotations_def AtomicUpdate_get_fails)

lemma setPod_rejected:
  "KeyFunc (binding_store r) ctx podID = Inr key \<Longrightarrow> etcd_get key h = Inr (obj, i) \<Longrightarrow>
   setPodHostAndAnnotations_func old machine annotations obj = Inl e \<Longrightarrow>
   setPodHostAndAnnotations r ctx podID old machine annotations h = (None, Some e, h)"
  by (simp add: setPodHostAndAnnotations_def AtomicUpdate_rejected)

lemma setPod_written:
  assumes "KeyFunc (binding_store r) ctx podID = Inr key"
    and "get_err h = None" and "cas_err h = None"
    and "nodes h key = Some (PodObject pod, i)"
    and "setPodHostAndAnnotations_func old machine annotations (PodObject pod) = Inr (PodObject pod', ttl)"
  shows "setPodHostAndAnnotations r ctx podID old machine annotations h =
           (Some pod', None, h\<lparr>nodes := (nodes h)(key \<mapsto> (PodObject pod', Suc i))\<rparr>)"
  using assms(1)
    AtomicUpdate_written [of h key "PodObject pod" i
      "setPodHostAndAnnotations_func old machine annotations" "PodObject pod'" ttl] assms(2-5)
  by (simp add: setPodHostAndAnnotations_def)

lemma setPod_write_fails:
  assumes "KeyFunc (binding_store r) ctx podID = Inr key"
    and "get_err h = None" and "cas_err h = Some e" and "e \<noteq> EtcdTestFailed"
    and "nodes h key = Some (PodObject pod, i)"
    and "setPodHostAndAnnotations_func old machine annotations (PodObject pod) = Inr (PodObject pod', ttl)"
  shows "setPodHostAndAnnotations r ctx podID old machine annotations h = (Some pod', Some e, h)"
  using assms(1)
    AtomicUpdate_write_fails [of h e key "PodObject pod" i
      "setPodHostAndAnnotations_func old machine annotations" "PodObject pod'" ttl] assms(2-6)
  by (simp add: setPodHostAndAnnotations_def)

lemma setPod_conflict:
  assumes "KeyFunc (binding_store r) ctx podID = Inr key"
    and "get_err h = None" and "cas_err h = Some EtcdTestFailed"
    and "nodes h key = Some (PodObject pod, i)"
    and "setPodHostAndAnnotations_func old machine annotations (PodObject pod) = Inr (PodObject pod', ttl)"
  shows "setPodHostAndAnnotations r ctx podID old machine annotations h =
           (Some pod', Some EtcdTestFailed, h)"
  using assms(1)
    AtomicUpdate_conflict [of h key "PodObject pod" i
      "setPodHostAndAnnotations_func old machine annotations" "PodObject pod'" ttl] assms(2-5)
  by (simp add: setPodHostAndAnnotations_def)

section \<open>\<open>Create\<close> on a valid binding\<close>

lemma Create_valid:
  assumes "ref_Kind (binding_Target b) = '''' \<or> ref_Kind (binding_Target b) = ''Node''
           \<or> ref_Kind (binding_Target b) = ''Minion''"
    and "ref_Name (binding_Target b) \<noteq> ''''"
  shows "Create r ctx (BindingObject b) h =
           (case assignPod r ctx (binding_Name b) (ref_Name (binding_Target b))
                   (binding_Annotations b) h of
              (err, h') \<Rightarrow> Some ((Some (StatusObject \<lparr>status_Status = StatusSuccess\<rparr>), err), h'))"
  using assms by (auto simp: Create_def split: prod.splits)

lemma Create_bound:
  assumes "ref_Kind (binding_Target b) = '''' \<or> ref_Kind (binding_Target b) = ''Node''
           \<or> ref_Kind (binding_Target b) = ''Minion''"
    and "ref_Name (binding_Target b) \<noteq> ''''"
    and "KeyFunc (binding_store r) ctx (binding_Name b) = Inr key"
    and "get_err h = None" and "cas_err h = None"
    and "nodes h key = Some (PodObject pod, i)"
    and "setPodHostAndAnnotations_func '''' (ref_Name (binding_Target b)) (binding_Annotations b)
           (PodObject pod) = Inr (PodObject pod', ttl)"
  shows "Create r ctx (BindingObject b) h =
           Some ((Some (StatusObject \<lparr>status_Status = StatusSuccess\<rparr>), None),
                 h\<lparr>nodes := (nodes h)(key \<mapsto> (PodObject pod', Suc i))\<rparr>)"
  using setPod_written [OF assms(3,4,5,6,7)]
  by (simp add: Create_valid [OF assms(1,2)] assignPod_def)

section \<open>The concrete inputs\<close>

lemma NewStorage_Binding_KeyFunc:
  "KeyFunc (binding_store (storage_Binding (NewStorage k s))) ctx name = k ctx ''/registry/pods'' name"
  by (simp add: NewStorage_def Let_def)

lemma ex_key:
  "KeyFunc (binding_store (storage_Binding ex_storage)) ctx ''web'' = Inr ''/registry/pods/web''"
  by (simp add: ex_storage_def NewStorage_Binding_KeyFunc ex_KeyFunc_def)

lemma ex_key_empty:
  "KeyFunc (binding_store (storage_Binding ex_storage)) ctx '''' = Inl (OtherError ''invalid identifier'')"
  by (simp add: ex_storage_def NewStorage_Binding_KeyFunc ex_KeyFunc_def)

lemma ex_helper_simps:
  "get_err (ex_helper p) = None" "cas_err (ex_helper p) = None"
  "nodes (ex_helper p) ''/registry/pods/web'' = Some (PodObject p, 7)"
  by (simp_all add: ex_helper_def)

lemma ex_binding_simps:
  "binding_Name (ex_binding kind host a) = ''web''"
  "binding_Annotations (ex_binding kind host a) = a"
  "ref_Kind (binding_Target (ex_binding kind host a)) = kind"
  "ref_Name (binding_Target (ex_binding kind host a)) = host"
  by (simp_all add: ex_binding_def)

lemma ex_bound_pod_hosts:
  "spec_Host (pod_Spec ex_bound_pod) \<noteq> '''' \<or> status_Host (pod_Status ex_bound_pod) \<noteq> ''''"
  by (simp add: ex_bound_pod_def)

lemma ex_bound_pod_rejected:
  "setPodHostAndAnnotations (storage_Binding ex_storage) ex_ctx ''web'' '''' machine annotations
     (ex_helper ex_bound_pod) =
   (None, Some (Errorf ''pod %v is already assigned to host %q or %q''
                  [Str ''web'', Str ''node-1'', Str ''node-1'']), ex_helper ex_bound_pod)"
  using setPod_rejected [OF ex_key etcd_get_found [OF ex_helper_simps(1,3)]
      func_assigned [OF ex_bound_pod_hosts]]
  by (simp add: ex_bound_pod_def ex_pod_def)

section \<open>Binding an assigned pod\<close>

text \<open>
  C2: a binding against a stored pod whose \<open>Spec.Host\<close> or \<open>Status.Host\<close> is not empty
  fails with the Conflict of the binding, which carries the rejection naming the pod and
  both hosts, and the store is left as it was. The target \<open>machine\<close> is any string, the
  host already recorded among them: binding again to the same host is a conflict too.
\<close>

theorem bind_assigned_conflict:
  assumes "KeyFunc (binding_store r) ctx podID = Inr key"
    and "get_err h = None"
    and "nodes h key = Some (PodObject pod, i)"
    and "spec_Host (pod_Spec pod) \<noteq> '''' \<or> status_Host (pod_Status pod) \<noteq> ''''"
  shows "assignPod r ctx podID machine annotations h =
           (Some (NewConflict ''binding'' podID
                    (Errorf ''pod %v is already assigned to host %q or %q''
                       [Str (pod_Name pod), Str (spec_Host (pod_Spec pod)),
                        Str (status_Host (pod_Status pod))])), h)"
proof -
  have get: "etcd_get key h = Inr (PodObject pod, i)"
    using assms(2,3) by (rule etcd_get_found)
  have "setPodHostAndAnnotations r ctx podID '''' machine annotations h =
          (None, Some (Errorf ''pod %v is already assigned to host %q or %q''
                       [Str (pod_Name pod), Str (spec_Host (pod_Spec pod)),
                        Str (status_Host (pod_Status pod))]), h)"
    using assms(1) get func_assigned [OF assms(4)] by (rule setPod_rejected)
  then show ?thesis
    by (simp add: assignPod_failed assignPod_err_cases)
qed

theorem bind_assigned_conflict_witness:
  "assignPod (storage_Binding ex_storage) ex_ctx ''web'' ''node-1'' None (ex_helper ex_bound_pod) =
     (Some (NewConflict ''binding'' ''web''
              (Errorf ''pod %v is already assigned to host %q or %q''
                 [Str ''web'', Str ''node-1'', Str ''node-1''])),
      ex_helper ex_bound_pod)"
  using bind_assigned_conflict [OF ex_key ex_helper_simps(1,3) ex_bound_pod_hosts]
  by (simp add: ex_bound_pod_def ex_pod_def)

section \<open>Binding an unassigned pod\<close>

text \<open>
  C3: a valid binding (kind empty, \<open>Node\<close> or \<open>Minion\<close>; target name \<open>H\<close> not empty) against a
  stored pod with both host fields empty succeeds: \<open>Create\<close> returns the success status and
  no error, and the store holds the pod with \<open>Spec.Host\<close> and \<open>Status.Host\<close> equal to \<open>H\<close> and
  with the annotation map that gives every key of the request's map the request's value and
  every other key its old value. Nothing else of the pod changes.
\<close>

theorem bind_unassigned:
  assumes "ref_Kind (binding_Target b) = '''' \<or> ref_Kind (binding_Target b) = ''Node''
           \<or> ref_Kind (binding_Target b) = ''Minion''"
    and "ref_Name (binding_Target b) \<noteq> ''''"
    and "KeyFunc (binding_store r) ctx (binding_Name b) = Inr key"
    and "get_err h = None" and "cas_err h = None"
    and "nodes h key = Some (PodObject pod, i)"
    and "spec_Host (pod_Spec pod) = ''''" and "status_Host (pod_Status pod) = ''''"
  shows "Create r ctx (BindingObject b) h =
           Some ((Some (StatusObject \<lparr>status_Status = StatusSuccess\<rparr>), None),
                 h\<lparr>nodes := (nodes h)(key \<mapsto>
                     (PodObject (pod
                        \<lparr>pod_Spec := (pod_Spec pod)\<lparr>spec_Host := ref_Name (binding_Target b)\<rparr>,
                         pod_Status := (pod_Status pod)\<lparr>status_Host := ref_Name (binding_Target b)\<rparr>,
                         pod_Annotations :=
                           Some (\<lambda>k. case entries (binding_Annotations b) k of
                                       Some v \<Rightarrow> Some v
                                     | None \<Rightarrow> entries (pod_Annotations pod) k)\<rparr>),
                      Suc i))\<rparr>)"
  using assms(1,2,3,4,5,6) func_unassigned [OF assms(7,8)] by (rule Create_bound)

theorem bind_unassigned_witness:
  "Create (storage_Binding ex_storage) ex_ctx
     (BindingObject (ex_binding ''Node'' ''node-1'' (Some [''a'' \<mapsto> ''1'', ''c'' \<mapsto> ''3''])))
     (ex_helper (ex_pod\<lparr>pod_Annotations := Some [''b'' \<mapsto> ''2'', ''c'' \<mapsto> ''0'']\<rparr>)) =
   Some ((Some (StatusObject \<lparr>status_Status = ''Success''\<rparr>), None),
         \<lparr>nodes = [''/registry/pods/web'' \<mapsto>
            (PodObject \<lparr>pod_Name = ''web'',
               pod_Annotations = Some [''a'' \<mapsto> ''1'', ''b'' \<mapsto> ''2'', ''c'' \<mapsto> ''3''],
               pod_Spec = \<lparr>spec_Host = ''node-1'', spec_rest = ''nginx''\<rparr>,
               pod_Status = \<lparr>status_Host = ''node-1'', status_rest = ''Pending''\<rparr>\<rparr>, 8)],
          get_err = None, cas_err = None, retries = 2\<rparr>)"
proof -
  let ?b = "ex_binding ''Node'' ''node-1'' (Some [''a'' \<mapsto> ''1'', ''c'' \<mapsto> ''3''])"
  let ?p = "ex_pod\<lparr>pod_Annotations := Some [''b'' \<mapsto> ''2'', ''c'' \<mapsto> ''0'']\<rparr>"
  have kind: "ref_Kind (binding_Target ?b) = '''' \<or> ref_Kind (binding_Target ?b) = ''Node''
           \<or> ref_Kind (binding_Target ?b) = ''Minion''"
    by (simp add: ex_binding_simps)
  have name: "ref_Name (binding_Target ?b) \<noteq> ''''"
    by (simp add: ex_binding_simps)
  have key: "KeyFunc (binding_store (storage_Binding ex_storage)) ex_ctx (binding_Name ?b) =
      Inr ''/registry/pods/web''"
    by (simp add: ex_binding_simps ex_key)
  have hosts: "spec_Host (pod_Spec ?p) = ''''" "status_Host (pod_Status ?p) = ''''"
    by (simp_all add: ex_pod_def)
  show ?thesis
    using bind_unassigned [OF kind name key ex_helper_simps hosts]
    by (simp add: ex_binding_simps ex_helper_def ex_pod_def StatusSuccess_def fun_eq_iff)
qed

text \<open>
  C10: when the stored pod's annotation map is nil and the request carries the map \<open>A\<close>,
  the mutation function returns no error and a pod whose annotations are exactly \<open>A\<close>
  (the map it makes before the assignments), and the valid binding succeeds with that
  pod stored.
\<close>

theorem bind_nil_annotations:
  assumes "ref_Kind (binding_Target b) = '''' \<or> ref_Kind (binding_Target b) = ''Node''
           \<or> ref_Kind (binding_Target b) = ''Minion''"
    and "ref_Name (binding_Target b) \<noteq> ''''"
    and "KeyFunc (binding_store r) ctx (binding_Name b) = Inr key"
    and "get_err h = None" and "cas_err h = None"
    and "nodes h key = Some (PodObject pod, i)"
    and "spec_Host (pod_Spec pod) = ''''" and "status_Host (pod_Status pod) = ''''"
    and "pod_Annotations pod = None"
    and "binding_Annotations b = Some A"
  shows "setPodHostAndAnnotations_func '''' (ref_Name (binding_Target b)) (Some A) (PodObject pod) =
           Inr (PodObject (pod
                  \<lparr>pod_Spec := (pod_Spec pod)\<lparr>spec_Host := ref_Name (binding_Target b)\<rparr>,
                   pod_Status := (pod_Status pod)\<lparr>status_Host := ref_Name (binding_Target b)\<rparr>,
                   pod_Annotations := Some A\<rparr>), 0)
       \<and> Create r ctx (BindingObject b) h =
           Some ((Some (StatusObject \<lparr>status_Status = StatusSuccess\<rparr>), None),
                 h\<lparr>nodes := (nodes h)(key \<mapsto>
                     (PodObject (pod
                        \<lparr>pod_Spec := (pod_Spec pod)\<lparr>spec_Host := ref_Name (binding_Target b)\<rparr>,
                         pod_Status := (pod_Status pod)\<lparr>status_Host := ref_Name (binding_Target b)\<rparr>,
                         pod_Annotations := Some A\<rparr>),
                      Suc i))\<rparr>)"
proof -
  have f: "setPodHostAndAnnotations_func '''' (ref_Name (binding_Target b)) (Some A) (PodObject pod) =
           Inr (PodObject (pod
                  \<lparr>pod_Spec := (pod_Spec pod)\<lparr>spec_Host := ref_Name (binding_Target b)\<rparr>,
                   pod_Status := (pod_Status pod)\<lparr>status_Host := ref_Name (binding_Target b)\<rparr>,
                   pod_Annotations := Some A\<rparr>), 0)"
    using assms(7,8,9) by (simp add: setPodHostAndAnnotations_func_def range_assign_def)
  then have f': "setPodHostAndAnnotations_func '''' (ref_Name (binding_Target b))
      (binding_Annotations b) (PodObject pod) =
           Inr (PodObject (pod
                  \<lparr>pod_Spec := (pod_Spec pod)\<lparr>spec_Host := ref_Name (binding_Target b)\<rparr>,
                   pod_Status := (pod_Status pod)\<lparr>status_Host := ref_Name (binding_Target b)\<rparr>,
                   pod_Annotations := Some A\<rparr>), 0)"
    using assms(10) by simp
  show ?thesis
    using f Create_bound [OF assms(1,2,3,4,5,6) f'] by simp
qed

theorem bind_nil_annotations_witness:
  "setPodHostAndAnnotations_func '''' ''node-1'' (Some [''a'' \<mapsto> ''1''])
     (PodObject (ex_pod\<lparr>pod_Annotations := None\<rparr>)) =
     Inr (PodObject \<lparr>pod_Name = ''web'', pod_Annotations = Some [''a'' \<mapsto> ''1''],
               pod_Spec = \<lparr>spec_Host = ''node-1'', spec_rest = ''nginx''\<rparr>,
               pod_Status = \<lparr>status_Host = ''node-1'', status_rest = ''Pending''\<rparr>\<rparr>, 0)
   \<and> Create (storage_Binding ex_storage) ex_ctx
       (BindingObject (ex_binding '''' ''node-1'' (Some [''a'' \<mapsto> ''1''])))
       (ex_helper (ex_pod\<lparr>pod_Annotations := None\<rparr>)) =
     Some ((Some (StatusObject \<lparr>status_Status = ''Success''\<rparr>), None),
         \<lparr>nodes = [''/registry/pods/web'' \<mapsto>
            (PodObject \<lparr>pod_Name = ''web'', pod_Annotations = Some [''a'' \<mapsto> ''1''],
               pod_Spec = \<lparr>spec_Host = ''node-1'', spec_rest = ''nginx''\<rparr>,
               pod_Status = \<lparr>status_Host = ''node-1'', status_rest = ''Pending''\<rparr>\<rparr>, 8)],
          get_err = None, cas_err = None, retries = 2\<rparr>)"
proof -
  let ?b = "ex_binding '''' ''node-1'' (Some [''a'' \<mapsto> ''1''])"
  let ?p = "ex_pod\<lparr>pod_Annotations := None\<rparr>"
  have kind: "ref_Kind (binding_Target ?b) = '''' \<or> ref_Kind (binding_Target ?b) = ''Node''
           \<or> ref_Kind (binding_Target ?b) = ''Minion''"
    by (simp add: ex_binding_simps)
  have name: "ref_Name (binding_Target ?b) \<noteq> ''''"
    by (simp add: ex_binding_simps)
  have key: "KeyFunc (binding_store (storage_Binding ex_storage)) ex_ctx (binding_Name ?b) =
      Inr ''/registry/pods/web''"
    by (simp add: ex_binding_simps ex_key)
  have hosts: "spec_Host (pod_Spec ?p) = ''''" "status_Host (pod_Status ?p) = ''''"
    by (simp_all add: ex_pod_def)
  have nil: "pod_Annotations ?p = None"
    by simp
  have ann: "binding_Annotations ?b = Some [''a'' \<mapsto> ''1'']"
    by (simp add: ex_binding_simps)
  show ?thesis
    using bind_nil_annotations [OF kind name key ex_helper_simps hosts nil ann]
    by (simp add: ex_binding_simps ex_helper_def ex_pod_def StatusSuccess_def)
qed

section \<open>Validation\<close>

text \<open>
  C4: a binding whose target kind is not empty, \<open>Node\<close> or \<open>Minion\<close>, and a binding whose
  target name is empty, is refused by \<open>Create\<close> with the Invalid error of the binding whose
  one field error names \<open>to.kind\<close>, respectively \<open>to.name\<close>; no object is returned and the
  store is returned as it was given, whatever it holds.
\<close>

theorem invalid_binding_rejected:
  assumes "(ref_Kind (binding_Target b) \<noteq> '''' \<and> ref_Kind (binding_Target b) \<noteq> ''Node''
            \<and> ref_Kind (binding_Target b) \<noteq> ''Minion'')
           \<or> ref_Name (binding_Target b) = ''''"
  shows "Create r ctx (BindingObject b) h =
           Some ((None,
                  Some (NewInvalid ''binding'' (binding_Name b)
                    [if ref_Kind (binding_Target b) \<noteq> '''' \<and> ref_Kind (binding_Target b) \<noteq> ''Node''
                        \<and> ref_Kind (binding_Target b) \<noteq> ''Minion''
                     then NewFieldInvalid ''to.kind'' (ref_Kind (binding_Target b)) kind_message
                     else NewFieldRequired ''to.name''])), h)"
  using assms by (auto simp: Create_def)

theorem invalid_binding_rejected_witness:
  "Create (storage_Binding ex_storage) ex_ctx (BindingObject (ex_binding ''Pod'' ''node-1'' None))
      (ex_helper ex_pod) =
     Some ((None, Some (NewInvalid ''binding'' ''web''
                     [NewFieldInvalid ''to.kind'' ''Pod'' kind_message])), ex_helper ex_pod)
   \<and> Create (storage_Binding ex_storage) ex_ctx (BindingObject (ex_binding ''Node'' '''' None))
      (ex_helper ex_pod) =
     Some ((None, Some (NewInvalid ''binding'' ''web'' [NewFieldRequired ''to.name''])),
           ex_helper ex_pod)"
  using invalid_binding_rejected [of "ex_binding ''Pod'' ''node-1'' None"
          "storage_Binding ex_storage" ex_ctx "ex_helper ex_pod"]
        invalid_binding_rejected [of "ex_binding ''Node'' '''' None"
          "storage_Binding ex_storage" ex_ctx "ex_helper ex_pod"]
  by (simp add: ex_binding_simps)

section \<open>Errors of a failed binding\<close>

text \<open>
  C5, as the code has it: when the key function fails with \<open>e\<close>, the binding fails without
  a step on the store, and \<open>e\<close> goes through the same translation as every other error:
  NotFound only when \<open>e\<close> is the store's not-found error, the Conflict of the pod when \<open>e\<close> is
  the store's failed comparison, \<open>e\<close> itself when it is a status error already, and
  otherwise the Conflict of the binding carrying \<open>e\<close>.
\<close>

theorem key_failure_translated:
  assumes "KeyFunc (binding_store r) ctx podID = Inl e"
  shows "assignPod r ctx podID machine annotations h =
           (Some (if e = EtcdNotFound then NewNotFound ''pod'' podID
                  else if e = EtcdTestFailed then NewConflict ''pod'' podID e
                  else if is_StatusError e then e
                  else NewConflict ''binding'' podID e), h)"
  using assignPod_failed [OF setPod_key_fails [OF assms]]
  by (simp add: assignPod_err_cases)

theorem key_failure_translated_witness:
  "assignPod (storage_Binding ex_storage) ex_ctx '''' ''node-1'' None (ex_helper ex_pod) =
     (Some (NewConflict ''binding'' '''' (OtherError ''invalid identifier'')), ex_helper ex_pod)"
  using key_failure_translated [OF ex_key_empty] by simp

text \<open>
  The claim as the spec states it fails: the key function of the concrete storage fails on
  the empty name, and the binding then fails with Conflict, not with NotFound.
\<close>

theorem key_failure_not_NotFound:
  "KeyFunc (binding_store (storage_Binding ex_storage)) ex_ctx '''' =
     Inl (OtherError ''invalid identifier'')
   \<and> fst (assignPod (storage_Binding ex_storage) ex_ctx '''' ''node-1'' None (ex_helper ex_pod)) =
     Some (NewConflict ''binding'' '''' (OtherError ''invalid identifier''))
   \<and> \<not> is_NotFound
       (fst (assignPod (storage_Binding ex_storage) ex_ctx '''' ''node-1'' None (ex_helper ex_pod)))"
  by (simp add: ex_key_empty assignPod_failed [OF setPod_key_fails [OF ex_key_empty]]
      assignPod_err_cases)

text \<open>
  C6, as the code has it: when \<open>setPodHostAndAnnotations\<close> fails with \<open>e\<close>, \<open>assignPod\<close>
  returns: NotFound for the pod when \<open>e\<close> is the store's not-found error; Conflict for the
  pod when \<open>e\<close> is the store's failed comparison, and the reason this Conflict carries is
  \<open>e\<close>, the store's error, not a host; \<open>e\<close> itself when it is a status error already; and
  otherwise Conflict for the binding, carrying \<open>e\<close>. The last case is that of the mutation
  function's own rejection of a pod, and then \<open>e\<close> is the message naming the pod and the
  hosts recorded in both of its host fields.
\<close>

theorem bind_error_translation:
  assumes "setPodHostAndAnnotations r ctx podID '''' machine annotations h = (finalPod, Some e, h')"
  shows "assignPod r ctx podID machine annotations h =
           (Some (if e = EtcdNotFound then NewNotFound ''pod'' podID
                  else if e = EtcdTestFailed then NewConflict ''pod'' podID e
                  else if is_StatusError e then e
                  else NewConflict ''binding'' podID e), h')
       \<and> (\<forall>pod. setPodHostAndAnnotations_func '''' machine annotations (PodObject pod) = Inl e \<longrightarrow>
             e = Errorf ''pod %v is already assigned to host %q or %q''
                   [Str (pod_Name pod), Str (spec_Host (pod_Spec pod)),
                    Str (status_Host (pod_Status pod))]
           \<and> assignPod r ctx podID machine annotations h = (Some (NewConflict ''binding'' podID e), h'))"
proof -
  have 1: "assignPod r ctx podID machine annotations h =
           (Some (if e = EtcdNotFound then NewNotFound ''pod'' podID
                  else if e = EtcdTestFailed then NewConflict ''pod'' podID e
                  else if is_StatusError e then e
                  else NewConflict ''binding'' podID e), h')"
    using assignPod_failed [OF assms] by (simp add: assignPod_err_cases)
  have 2: "e = Errorf ''pod %v is already assigned to host %q or %q''
                   [Str (pod_Name pod), Str (spec_Host (pod_Spec pod)),
                    Str (status_Host (pod_Status pod))]
           \<and> assignPod r ctx podID machine annotations h = (Some (NewConflict ''binding'' podID e), h')"
    if "setPodHostAndAnnotations_func '''' machine annotations (PodObject pod) = Inl e" for pod
    using func_rejection [OF that] 1 by simp
  show ?thesis
    using 1 2 by blast
qed

theorem bind_error_translation_witness:
  "assignPod (storage_Binding ex_storage) ex_ctx ''web'' ''node-2'' None
       ((ex_helper ex_pod)\<lparr>nodes := Map.empty\<rparr>) =
     (Some (NewNotFound ''pod'' ''web''), (ex_helper ex_pod)\<lparr>nodes := Map.empty\<rparr>)
   \<and> assignPod (storage_Binding ex_storage) ex_ctx ''web'' ''node-2'' None
       ((ex_helper ex_pod)\<lparr>get_err := Some EtcdTestFailed\<rparr>) =
     (Some (NewConflict ''pod'' ''web'' EtcdTestFailed),
      (ex_helper ex_pod)\<lparr>get_err := Some EtcdTestFailed\<rparr>)
   \<and> assignPod (storage_Binding ex_storage) ex_ctx ''web'' ''node-2'' None (ex_helper ex_bound_pod) =
     (Some (NewConflict ''binding'' ''web''
              (Errorf ''pod %v is already assigned to host %q or %q''
                 [Str ''web'', Str ''node-1'', Str ''node-1''])), ex_helper ex_bound_pod)
   \<and> assignPod (storage_Binding ex_storage) ex_ctx ''web'' ''node-2'' None
       ((ex_helper ex_pod)\<lparr>get_err := Some (NewBadRequest ''no leader'')\<rparr>) =
     (Some (NewBadRequest ''no leader''),
      (ex_helper ex_pod)\<lparr>get_err := Some (NewBadRequest ''no leader'')\<rparr>)"
proof -
  let ?r = "storage_Binding ex_storage"
  let ?absent = "(ex_helper ex_pod)\<lparr>nodes := Map.empty\<rparr>"
  let ?busy = "(ex_helper ex_pod)\<lparr>get_err := Some EtcdTestFailed\<rparr>"
  let ?down = "(ex_helper ex_pod)\<lparr>get_err := Some (NewBadRequest ''no leader'')\<rparr>"
  have "etcd_get ''/registry/pods/web'' ?absent = Inl EtcdNotFound"
    by (simp add: etcd_get_def ex_helper_def)
  from setPod_get_fails [OF ex_key this]
  have a: "setPodHostAndAnnotations ?r ex_ctx ''web'' '''' ''node-2'' None ?absent =
      (None, Some EtcdNotFound, ?absent)" .
  have "etcd_get ''/registry/pods/web'' ?busy = Inl EtcdTestFailed"
    by (simp add: etcd_get_def)
  from setPod_get_fails [OF ex_key this]
  have b: "setPodHostAndAnnotations ?r ex_ctx ''web'' '''' ''node-2'' None ?busy =
      (None, Some EtcdTestFailed, ?busy)" .
  have c: "setPodHostAndAnnotations ?r ex_ctx ''web'' '''' ''node-2'' None (ex_helper ex_bound_pod) =
      (None, Some (Errorf ''pod %v is already assigned to host %q or %q''
                  [Str ''web'', Str ''node-1'', Str ''node-1'']), ex_helper ex_bound_pod)"
    by (rule ex_bound_pod_rejected)
  have "etcd_get ''/registry/pods/web'' ?down = Inl (NewBadRequest ''no leader'')"
    by (simp add: etcd_get_def)
  from setPod_get_fails [OF ex_key this]
  have d: "setPodHostAndAnnotations ?r ex_ctx ''web'' '''' ''node-2'' None ?down =
      (None, Some (NewBadRequest ''no leader''), ?down)" .
  show ?thesis
    using bind_error_translation [OF a] bind_error_translation [OF b]
      bind_error_translation [OF c] bind_error_translation [OF d]
    by simp
qed

text \<open>
  The claim as the spec states it fails for an update conflict: when the comparisons of
  the store keep failing until the retries are used up, the binding fails with the
  Conflict of the pod whose reason is the store's conflict error, and that names no host.
\<close>

theorem update_conflict_names_no_host:
  "fst (assignPod (storage_Binding ex_storage) ex_ctx ''web'' ''node-2'' None
       ((ex_helper ex_pod)\<lparr>cas_err := Some EtcdTestFailed\<rparr>)) =
     Some (NewConflict ''pod'' ''web'' EtcdTestFailed)
   \<and> snd (assignPod (storage_Binding ex_storage) ex_ctx ''web'' ''node-2'' None
       ((ex_helper ex_pod)\<lparr>cas_err := Some EtcdTestFailed\<rparr>)) =
     (ex_helper ex_pod)\<lparr>cas_err := Some EtcdTestFailed\<rparr>"
proof -
  let ?h = "(ex_helper ex_pod)\<lparr>cas_err := Some EtcdTestFailed\<rparr>"
  have store: "get_err ?h = None" "cas_err ?h = Some EtcdTestFailed"
    "nodes ?h ''/registry/pods/web'' = Some (PodObject ex_pod, 7)"
    by (simp_all add: ex_helper_def)
  have hosts: "spec_Host (pod_Spec ex_pod) = ''''" "status_Host (pod_Status ex_pod) = ''''"
    by (simp_all add: ex_pod_def)
  from assignPod_failed [OF setPod_conflict [OF ex_key store func_unassigned [OF hosts]]]
  show ?thesis
    by (simp add: assignPod_err_cases)
qed

text \<open>
  C7, as the code has it: when the round trip to the store fails with an error \<open>e\<close> that is
  neither the store's not-found error nor its failed comparison nor a status error (a
  timeout, a lost connection), be it the read or the write of the update, the binding
  fails with the Conflict of the binding carrying \<open>e\<close>, and the store is as it was.
\<close>

theorem store_failure_wrapped:
  assumes "KeyFunc (binding_store r) ctx podID = Inr key"
    and "get_err h = Some e
         \<or> (get_err h = None \<and> cas_err h = Some e \<and> nodes h key = Some (PodObject pod, i)
            \<and> spec_Host (pod_Spec pod) = '''' \<and> status_Host (pod_Status pod) = '''')"
    and "e \<noteq> EtcdNotFound" and "e \<noteq> EtcdTestFailed" and "\<not> is_StatusError e"
  shows "assignPod r ctx podID machine annotations h = (Some (NewConflict ''binding'' podID e), h)"
  using assms(2)
proof
  assume "get_err h = Some e"
  then have "etcd_get key h = Inl e"
    by (rule etcd_get_failed)
  from assignPod_failed [OF setPod_get_fails [OF assms(1) this]] show ?thesis
    using assms(3,4,5) by (simp add: assignPod_err_cases)
next
  assume w: "get_err h = None \<and> cas_err h = Some e \<and> nodes h key = Some (PodObject pod, i)
            \<and> spec_Host (pod_Spec pod) = '''' \<and> status_Host (pod_Status pod) = ''''"
  then have f: "setPodHostAndAnnotations_func '''' machine annotations (PodObject pod) =
     Inr (PodObject (pod
            \<lparr>pod_Spec := (pod_Spec pod)\<lparr>spec_Host := machine\<rparr>,
             pod_Status := (pod_Status pod)\<lparr>status_Host := machine\<rparr>,
             pod_Annotations := Some (\<lambda>k. case entries annotations k of
                                            Some v \<Rightarrow> Some v
                                          | None \<Rightarrow> entries (pod_Annotations pod) k)\<rparr>), 0)"
    by (simp add: func_unassigned)
  from w have "get_err h = None" "cas_err h = Some e" "nodes h key = Some (PodObject pod, i)"
    by simp_all
  from assignPod_failed [OF setPod_write_fails [OF assms(1) this(1,2) assms(4) this(3) f]]
  show ?thesis
    using assms(3,4,5) by (simp add: assignPod_err_cases)
qed

theorem store_failure_wrapped_witness:
  "assignPod (storage_Binding ex_storage) ex_ctx ''web'' ''node-1'' None
       ((ex_helper ex_pod)\<lparr>cas_err := Some (OtherError ''connection refused'')\<rparr>) =
     (Some (NewConflict ''binding'' ''web'' (OtherError ''connection refused'')),
      (ex_helper ex_pod)\<lparr>cas_err := Some (OtherError ''connection refused'')\<rparr>)"
proof -
  let ?h = "(ex_helper ex_pod)\<lparr>cas_err := Some (OtherError ''connection refused'')\<rparr>"
  have "get_err ?h = Some (OtherError ''connection refused'')
         \<or> (get_err ?h = None \<and> cas_err ?h = Some (OtherError ''connection refused'')
            \<and> nodes ?h ''/registry/pods/web'' = Some (PodObject ex_pod, 7)
            \<and> spec_Host (pod_Spec ex_pod) = '''' \<and> status_Host (pod_Status ex_pod) = '''')"
    by (simp add: ex_helper_def ex_pod_def)
  from store_failure_wrapped [OF ex_key this] show ?thesis
    by simp
qed

text \<open>
  The claim as the spec states it fails: a read of the store that times out is reported
  to the caller as the Conflict of the binding, not as the timeout itself.
\<close>

theorem timeout_reported_as_conflict:
  "get_err ((ex_helper ex_pod)\<lparr>get_err := Some (OtherError ''timeout'')\<rparr>) =
     Some (OtherError ''timeout'')
   \<and> fst (assignPod (storage_Binding ex_storage) ex_ctx ''web'' ''node-1'' None
       ((ex_helper ex_pod)\<lparr>get_err := Some (OtherError ''timeout'')\<rparr>)) =
     Some (NewConflict ''binding'' ''web'' (OtherError ''timeout''))
   \<and> is_Conflict (fst (assignPod (storage_Binding ex_storage) ex_ctx ''web'' ''node-1'' None
       ((ex_helper ex_pod)\<lparr>get_err := Some (OtherError ''timeout'')\<rparr>)))"
proof -
  have "etcd_get ''/registry/pods/web'' ((ex_helper ex_pod)\<lparr>get_err := Some (OtherError ''timeout'')\<rparr>) =
      Inl (OtherError ''timeout'')"
    by (simp add: etcd_get_def)
  from assignPod_failed [OF setPod_get_fails [OF ex_key this]] show ?thesis
    by (simp add: assignPod_err_cases)
qed

section \<open>What \<open>Create\<close> returns when the binding fails\<close>

text \<open>
  C8: the claim fails on the code. A valid binding against the pod already bound to
  \<open>node-1\<close> makes \<open>Create\<close> return the success status object together with the Conflict
  error.
\<close>

theorem Create_success_status_with_error:
  "Create (storage_Binding ex_storage) ex_ctx (BindingObject (ex_binding ''Node'' ''node-2'' None))
     (ex_helper ex_bound_pod) =
   Some ((Some (StatusObject \<lparr>status_Status = ''Success''\<rparr>),
          Some (NewConflict ''binding'' ''web''
                  (Errorf ''pod %v is already assigned to host %q or %q''
                     [Str ''web'', Str ''node-1'', Str ''node-1'']))),
         ex_helper ex_bound_pod)"
proof -
  have "Create (storage_Binding ex_storage) ex_ctx
          (BindingObject (ex_binding ''Node'' ''node-2'' None)) (ex_helper ex_bound_pod) =
        (case assignPod (storage_Binding ex_storage) ex_ctx ''web'' ''node-2'' None
                (ex_helper ex_bound_pod) of
           (err, h') \<Rightarrow> Some ((Some (StatusObject \<lparr>status_Status = StatusSuccess\<rparr>), err), h'))"
    using Create_valid [of "ex_binding ''Node'' ''node-2'' None"]
    by (simp add: ex_binding_simps)
  then show ?thesis
    by (simp add: assignPod_failed [OF ex_bound_pod_rejected] assignPod_err_cases
        StatusSuccess_def)
qed

section \<open>Several calls racing for one pod\<close>

lemma call_step_steps_left:
  "steps_left (fst (call_step req c h)) \<le> steps_left c - 1"
  by (cases req; cases c)
     (auto simp: call_step_def split: sum.splits prod.splits option.splits nat.splits)

lemma sched_step_length:
  "length (fst (sched_step reqs j s)) = length (fst s)"
  by (cases s) (auto simp: sched_step_def split: prod.splits)

lemma sched_step_steps_left:
  "steps_left (fst (sched_step reqs j s) ! k) \<le> steps_left (fst s ! k)"
proof (cases s)
  case (Pair cs h)
  show ?thesis
  proof (cases "j < length cs \<and> j < length reqs \<and> k = j")
    case True
    obtain c' h' where st: "call_step (reqs ! j) (cs ! j) h = (c', h')"
      by (cases "call_step (reqs ! j) (cs ! j) h")
    have "steps_left c' \<le> steps_left (cs ! j) - 1"
      using call_step_steps_left [of "reqs ! j" "cs ! j" h] st by simp
    then show ?thesis
      using Pair True st by (simp add: sched_step_def)
  next
    case False
    then show ?thesis
      using Pair by (auto simp: sched_step_def split: prod.splits)
  qed
qed

lemma sched_step_steps_left_own:
  assumes "j < length (fst s)" and "j < length reqs"
  shows "steps_left (fst (sched_step reqs j s) ! j) \<le> steps_left (fst s ! j) - 1"
proof (cases s)
  case (Pair cs h)
  obtain c' h' where st: "call_step (reqs ! j) (cs ! j) h = (c', h')"
    by (cases "call_step (reqs ! j) (cs ! j) h")
  have "steps_left c' \<le> steps_left (cs ! j) - 1"
    using call_step_steps_left [of "reqs ! j" "cs ! j" h] st by simp
  then show ?thesis
    using Pair assms st by (simp add: sched_step_def)
qed

lemma fold_sched_length:
  "length (fst (fold (sched_step reqs) sched s)) = length (fst s)"
  by (induction sched arbitrary: s) (simp_all add: sched_step_length)

lemma fold_sched_steps_left:
  assumes "k < length (fst s)" and "k < length reqs"
  shows "steps_left (fst (fold (sched_step reqs) sched s) ! k) \<le>
         steps_left (fst s ! k) - count_list sched k"
  using assms
proof (induction sched arbitrary: s)
  case Nil
  then show ?case by simp
next
  case (Cons j sched)
  have len: "k < length (fst (sched_step reqs j s))"
    using Cons.prems(1) by (simp add: sched_step_length)
  have ih: "steps_left (fst (fold (sched_step reqs) sched (sched_step reqs j s)) ! k) \<le>
         steps_left (fst (sched_step reqs j s) ! k) - count_list sched k"
    using Cons.IH [OF len Cons.prems(2)] .
  show ?case
  proof (cases "j = k")
    case True
    have "steps_left (fst (sched_step reqs j s) ! k) \<le> steps_left (fst s ! k) - 1"
      using sched_step_steps_left_own [of k s reqs] Cons.prems True by simp
    then show ?thesis
      using ih True by simp
  next
    case False
    have "steps_left (fst (sched_step reqs j s) ! k) \<le> steps_left (fst s ! k)"
      by (rule sched_step_steps_left)
    then show ?thesis
      using ih False by simp
  qed
qed

lemma steps_left_0: "steps_left c = 0 \<Longrightarrow> \<exists>err. c = Returned err"
  by (cases c) simp_all

lemma func_returns_pod:
  "setPodHostAndAnnotations_func old machine annotations (PodObject pod) = Inr (ret, ttl) \<Longrightarrow>
   \<exists>pod'. ret = PodObject pod'"
  by (auto simp: setPodHostAndAnnotations_func_def split: if_splits)

lemma func_sets_host:
  assumes "spec_Host (pod_Spec pod) = ''''" and "status_Host (pod_Status pod) = ''''"
    and "setPodHostAndAnnotations_func '''' machine annotations (PodObject pod) = Inr (ret, ttl)"
  shows "\<exists>p. ret = PodObject p \<and> spec_Host (pod_Spec p) = machine
           \<and> status_Host (pod_Status p) = machine"
  using assms(3) func_unassigned [OF assms(1,2), of machine annotations] by auto

lemma assignPod_written:
  assumes "KeyFunc (binding_store r) ctx podID = Inr key"
    and "get_err h = None" and "cas_err h = None"
    and "nodes h key = Some (PodObject pod, i)"
    and "setPodHostAndAnnotations_func '''' machine annotations (PodObject pod) = Inr (ret, ttl)"
  shows "assignPod r ctx podID machine annotations h =
           (None, h\<lparr>nodes := (nodes h)(key \<mapsto> (ret, Suc i))\<rparr>)"
proof -
  obtain pod' where ret: "ret = PodObject pod'"
    using func_returns_pod [OF assms(5)] ..
  have "setPodHostAndAnnotations_func '''' machine annotations (PodObject pod) =
      Inr (PodObject pod', ttl)"
    using assms(5) ret by simp
  from setPod_written [OF assms(1-4) this] show ?thesis
    using ret by (simp add: assignPod_def)
qed

lemma assignPod_assigned:
  assumes "KeyFunc (binding_store r) ctx podID = Inr key"
    and "get_err h = None"
    and "nodes h key = Some (PodObject p, i)"
    and "spec_Host (pod_Spec p) \<noteq> ''''"
  shows "is_Conflict (fst (assignPod r ctx podID machine annotations h))
       \<and> snd (assignPod r ctx podID machine annotations h) = h"
proof -
  have get: "etcd_get key h = Inr (PodObject p, i)"
    using assms(2,3) by (rule etcd_get_found)
  have "spec_Host (pod_Spec p) \<noteq> '''' \<or> status_Host (pod_Status p) \<noteq> ''''"
    using assms(4) by simp
  from assignPod_failed [OF setPod_rejected [OF assms(1) get func_assigned [OF this]]]
  show ?thesis
    by (simp add: assignPod_err_cases)
qed

lemma racing_call_step:
  assumes "get_err h = None" and "nodes h key = Some (PodObject pod, i)"
    and "spec_Host (pod_Spec pod) = ''''" and "status_Host (pod_Status pod) = ''''"
    and "racing_call key i pod (podID, machine, annotations) c"
  shows "(racing_call key i pod (podID, machine, annotations)
            (fst (call_step (podID, machine, annotations) c h))
          \<and> snd (call_step (podID, machine, annotations) c h) = h)
       \<or> (\<exists>ret n. c = Swapping key ret i n
              \<and> setPodHostAndAnnotations_func '''' machine annotations (PodObject pod) =
                  Inr (ret, 0))"
proof (cases c)
  case (Ready k n)
  then have k: "k = key"
    using assms(5) by simp
  have get: "etcd_get key h = Inr (PodObject pod, i)"
    using assms(1,2) by (rule etcd_get_found)
  show ?thesis
    using Ready k get func_unassigned [OF assms(3,4), of machine annotations]
    by (simp add: call_step_def)
next
  case (Swapping k ret index n)
  then show ?thesis
    using assms(5) by simp
next
  case (Returned err)
  then show ?thesis
    using assms(5) by simp
qed

lemma winning_step:
  assumes "cas_err h = None" and "nodes h key = Some (PodObject pod, i)"
  shows "call_step (podID, machine, annotations) (Swapping key ret i n) h =
           (Returned None, h\<lparr>nodes := (nodes h)(key \<mapsto> (ret, Suc i))\<rparr>)"
  using etcd_cas_same_index [OF assms, of ret] by (simp add: call_step_def)

lemma losing_call_step:
  assumes "get_err h = None" and "cas_err h = None"
    and "nodes h key = Some (PodObject p, Suc i)"
    and "spec_Host (pod_Spec p) \<noteq> ''''"
    and "losing_call key i c"
  shows "losing_call key i (fst (call_step (podID, machine, annotations) c h))
       \<and> snd (call_step (podID, machine, annotations) c h) = h"
proof (cases c)
  case (Ready k n)
  then have k: "k = key"
    using assms(5) by simp
  have get: "etcd_get key h = Inr (PodObject p, Suc i)"
    using assms(1,3) by (rule etcd_get_found)
  have "spec_Host (pod_Spec p) \<noteq> '''' \<or> status_Host (pod_Status p) \<noteq> ''''"
    using assms(4) by simp
  from func_assigned [OF this, of machine annotations] show ?thesis
    using Ready k get by (simp add: call_step_def assignPod_err_cases)
next
  case (Swapping k ret index n)
  then have k: "k = key" "index = i"
    using assms(5) by simp_all
  have "etcd_cas key ret i h = (Some EtcdTestFailed, h)"
    using assms(2,3) by (simp add: etcd_cas_def)
  then show ?thesis
    using Swapping k by (simp add: call_step_def assignPod_err_cases split: nat.splits)
next
  case (Returned err)
  then show ?thesis
    using assms(5) by (simp add: call_step_def)
qed

lemma racing_call_losing: "racing_call key i pod req c \<Longrightarrow> losing_call key i c"
  by (cases c) simp_all

lemma racing_step:
  assumes "get_err h0 = None" and "cas_err h0 = None"
    and "nodes h0 key = Some (PodObject pod, i)"
    and "spec_Host (pod_Spec pod) = ''''" and "status_Host (pod_Status pod) = ''''"
    and "racing key i pod reqs h0 s"
  shows "racing key i pod reqs h0 (sched_step reqs j s)
       \<or> (\<exists>w. decided key i pod reqs h0 w (sched_step reqs j s))"
proof (cases s)
  case (Pair cs h)
  have h: "h = h0" and len: "length cs = length reqs"
    and all: "\<And>k. k < length reqs \<Longrightarrow> racing_call key i pod (reqs ! k) (cs ! k)"
    using assms(6) Pair by (simp_all add: racing_def)
  show ?thesis
  proof (cases "j < length reqs")
    case False
    then show ?thesis
      using assms(6) Pair len by (simp add: sched_step_def)
  next
    case True
    obtain podID machine annotations where req: "reqs ! j = (podID, machine, annotations)"
      by (cases "reqs ! j")
    have rc: "racing_call key i pod (podID, machine, annotations) (cs ! j)"
      using all [OF True] req by simp
    from racing_call_step [OF assms(1,3,4,5) rc]
    show ?thesis
    proof
      assume a: "racing_call key i pod (podID, machine, annotations)
            (fst (call_step (podID, machine, annotations) (cs ! j) h0))
          \<and> snd (call_step (podID, machine, annotations) (cs ! j) h0) = h0"
      obtain c' where st: "call_step (podID, machine, annotations) (cs ! j) h0 = (c', h0)"
        and c': "racing_call key i pod (podID, machine, annotations) c'"
        using a by (cases "call_step (podID, machine, annotations) (cs ! j) h0") auto
      have "racing_call key i pod (reqs ! k) (cs[j := c'] ! k)" if "k < length reqs" for k
        using that all [OF that] c' req len by (cases "k = j") simp_all
      then have "racing key i pod reqs h0 (sched_step reqs j s)"
        using Pair h len True req st by (simp add: sched_step_def racing_def)
      then show ?thesis ..
    next
      assume "\<exists>ret n. cs ! j = Swapping key ret i n
              \<and> setPodHostAndAnnotations_func '''' machine annotations (PodObject pod) =
                  Inr (ret, 0)"
      then obtain ret n where sw: "cs ! j = Swapping key ret i n"
        and ret: "setPodHostAndAnnotations_func '''' machine annotations (PodObject pod) =
                  Inr (ret, 0)"
        by blast
      have st: "call_step (podID, machine, annotations) (cs ! j) h0 =
          (Returned None, h0\<lparr>nodes := (nodes h0)(key \<mapsto> (ret, Suc i))\<rparr>)"
        using winning_step [OF assms(2,3)] sw by simp
      have others: "losing_call key i (cs[j := Returned None] ! k)"
        if "k < length reqs" and "k \<noteq> j" for k
        using that racing_call_losing [OF all [OF that(1)]] by simp
      have "decided key i pod reqs h0 j (sched_step reqs j s)"
        using Pair h len True req st ret others
        by (simp add: sched_step_def decided_def)
      then show ?thesis by blast
    qed
  qed
qed

lemma decided_step:
  assumes "get_err h0 = None" and "cas_err h0 = None"
    and "spec_Host (pod_Spec pod) = ''''" and "status_Host (pod_Status pod) = ''''"
    and "\<forall>q \<in> set reqs. fst (snd q) \<noteq> ''''"
    and "decided key i pod reqs h0 w s"
  shows "decided key i pod reqs h0 w (sched_step reqs j s)"
proof (cases s)
  case (Pair cs h)
  have len: "length cs = length reqs" and w: "w < length reqs" "cs ! w = Returned None"
    and others: "\<And>k. k < length reqs \<Longrightarrow> k \<noteq> w \<Longrightarrow> losing_call key i (cs ! k)"
    using assms(6) Pair by (simp_all add: decided_def)
  obtain ret where ret: "setPodHostAndAnnotations_func '''' (fst (snd (reqs ! w)))
        (snd (snd (reqs ! w))) (PodObject pod) = Inr (ret, 0)"
    and h: "h = h0\<lparr>nodes := (nodes h0)(key \<mapsto> (ret, Suc i))\<rparr>"
    using assms(6) Pair by (auto simp: decided_def)
  obtain p where p: "ret = PodObject p" and hosts: "spec_Host (pod_Spec p) = fst (snd (reqs ! w))"
    using func_sets_host [OF assms(3,4) ret] by blast
  have errs: "get_err h = None" "cas_err h = None"
    and node: "nodes h key = Some (PodObject p, Suc i)"
    using h p assms(1,2) by simp_all
  have "reqs ! w \<in> set reqs"
    using w(1) by simp
  then have bound: "spec_Host (pod_Spec p) \<noteq> ''''"
    using assms(5) hosts by simp
  show ?thesis
  proof (cases "j < length reqs")
    case False
    then show ?thesis
      using assms(6) Pair len by (simp add: sched_step_def)
  next
    case True
    obtain podID machine annotations where req: "reqs ! j = (podID, machine, annotations)"
      by (cases "reqs ! j")
    show ?thesis
    proof (cases "j = w")
      case True
      have "call_step (reqs ! j) (cs ! j) h = (Returned None, h)"
        using True w(2) req by (simp add: call_step_def)
      moreover have "cs[w := Returned None] = cs"
        using w(2) [symmetric] by (simp only: list_update_id)
      ultimately have "sched_step reqs j s = s"
        using Pair True w(1) len by (simp add: sched_step_def)
      then show ?thesis
        using assms(6) by simp
    next
      case False
      have lc: "losing_call key i (cs ! j)"
        using others [OF \<open>j < length reqs\<close> False] .
      from losing_call_step [OF errs node bound lc, of podID machine annotations]
      obtain c' where st: "call_step (podID, machine, annotations) (cs ! j) h = (c', h)"
        and c': "losing_call key i c'"
        by (cases "call_step (podID, machine, annotations) (cs ! j) h") auto
      have "losing_call key i (cs[j := c'] ! k)" if "k < length reqs" and "k \<noteq> w" for k
        using that others [OF that] c' len by (cases "k = j") simp_all
      then show ?thesis
        using assms(6) Pair len \<open>j < length reqs\<close> False req st w
        by (simp add: sched_step_def decided_def)
    qed
  qed
qed

lemma decided_fold:
  assumes "get_err h0 = None" and "cas_err h0 = None"
    and "spec_Host (pod_Spec pod) = ''''" and "status_Host (pod_Status pod) = ''''"
    and "\<forall>q \<in> set reqs. fst (snd q) \<noteq> ''''"
  shows "decided key i pod reqs h0 w s \<Longrightarrow>
         decided key i pod reqs h0 w (fold (sched_step reqs) sched s)"
  by (induction sched arbitrary: s) (simp_all add: decided_step [OF assms])

lemma racing_fold:
  assumes "get_err h0 = None" and "cas_err h0 = None"
    and "nodes h0 key = Some (PodObject pod, i)"
    and "spec_Host (pod_Spec pod) = ''''" and "status_Host (pod_Status pod) = ''''"
    and "\<forall>q \<in> set reqs. fst (snd q) \<noteq> ''''"
  shows "racing key i pod reqs h0 s \<Longrightarrow>
         racing key i pod reqs h0 (fold (sched_step reqs) sched s)
       \<or> (\<exists>w. decided key i pod reqs h0 w (fold (sched_step reqs) sched s))"
proof (induction sched arbitrary: s)
  case Nil
  then show ?case by simp
next
  case (Cons j sched)
  from racing_step [OF assms(1-5) Cons.prems, of j]
  show ?case
  proof
    assume "racing key i pod reqs h0 (sched_step reqs j s)"
    from Cons.IH [OF this] show ?thesis by simp
  next
    assume "\<exists>w. decided key i pod reqs h0 w (sched_step reqs j s)"
    then obtain w where "decided key i pod reqs h0 w (sched_step reqs j s)" ..
    from decided_fold [OF assms(1,2,4,5,6) this] show ?thesis
      by auto
  qed
qed

lemma racing_start:
  assumes "KeyFunc (binding_store r) ctx podID = Inr key"
    and "\<forall>q \<in> set reqs. fst q = podID"
  shows "racing key i pod reqs h (map (call_start r ctx h) reqs, h)"
proof -
  have "racing_call key i pod (reqs ! j) (call_start r ctx h (reqs ! j))"
    if "j < length reqs" for j
  proof -
    have "fst (reqs ! j) = podID"
      using assms(2) that by simp
    then show ?thesis
      using assms(1) by (cases "reqs ! j") (simp add: call_start_def)
  qed
  then show ?thesis
    by (simp add: racing_def)
qed

lemma start_steps_left:
  assumes "KeyFunc (binding_store r) ctx podID = Inr key" and "fst q = podID"
  shows "steps_left (call_start r ctx h q) = 2 * retries h + 2"
  using assms by (cases q) (simp add: call_start_def)

section \<open>A call on its own is \<open>assignPod\<close>\<close>

lemma sched_step_single:
  "sched_step [req] 0 ([c], h) = (case call_step req c h of (c', h') \<Rightarrow> ([c'], h'))"
  by (simp add: sched_step_def)

lemma returned_idle:
  "fold (sched_step [req]) (replicate k 0) ([Returned err], h) = ([Returned err], h)"
proof (induction k)
  case 0
  show ?case by simp
next
  case (Suc k)
  have "sched_step [req] 0 ([Returned err], h) = ([Returned err], h)"
    by (cases req) (simp add: sched_step_single call_step_def)
  then show ?case
    using Suc by (simp only: replicate.simps fold_simps o_apply)
qed

lemma two_steps:
  "fold (sched_step [req]) (replicate (Suc (Suc k)) 0) s =
     fold (sched_step [req]) (replicate k 0) (sched_step [req] 0 (sched_step [req] 0 s))"
  by (simp only: replicate.simps fold_simps o_apply)

lemma two_steps_ready:
  "sched_step [(podID, machine, annotations)] 0
     (sched_step [(podID, machine, annotations)] 0 ([Ready key n], h)) =
   (case etcd_get key h of
      Inl e \<Rightarrow> ([Returned (Some (assignPod_err podID e))], h)
    | Inr (obj, index) \<Rightarrow>
        (case setPodHostAndAnnotations_func '''' machine annotations obj of
           Inl e \<Rightarrow> ([Returned (Some (assignPod_err podID e))], h)
         | Inr (ret, ttl) \<Rightarrow>
             (case etcd_cas key ret index h of
                (None, h') \<Rightarrow> ([Returned None], h')
              | (Some e, h') \<Rightarrow>
                  (case n of
                     Suc m \<Rightarrow>
                       if e = EtcdTestFailed then ([Ready key m], h')
                       else ([Returned (Some (assignPod_err podID e))], h')
                   | 0 \<Rightarrow> ([Returned (Some (assignPod_err podID e))], h')))))"
  by (simp add: sched_step_single call_step_def
      split: sum.splits prod.splits option.splits nat.splits)

lemma ready_alone:
  "2 * n + 2 \<le> k \<Longrightarrow>
   fold (sched_step [(podID, machine, annotations)]) (replicate k 0) ([Ready key n], h) =
     (case AtomicUpdate_loop n key (setPodHostAndAnnotations_func '''' machine annotations) final h of
        (err, fin, h') \<Rightarrow> ([Returned (map_option (assignPod_err podID) err)], h'))"
proof (induction n arbitrary: k final h)
  case 0
  then obtain k' where k: "k = Suc (Suc k')"
    by (cases k; cases "k - 1") auto
  show ?case
    unfolding k two_steps two_steps_ready
    by (simp add: AtomicUpdate_loop.simps [of 0] returned_idle
        split: sum.splits prod.splits option.splits del: fold_replicate replicate.simps)
next
  case (Suc n)
  then obtain k' where k: "k = Suc (Suc k')" and k': "2 * n + 2 \<le> k'"
    by (cases k; cases "k - 1") auto
  have ih: "fold (sched_step [(podID, machine, annotations)]) (replicate k' 0) ([Ready key n], h1) =
      ([Returned (map_option (assignPod_err podID) err)], h2)"
    if "AtomicUpdate_loop n key (setPodHostAndAnnotations_func '''' machine annotations) fin1 h1 =
      (err, fin2, h2)" for fin1 h1 err fin2 h2
    using Suc.IH [OF k', of h1 fin1] that by simp
  show ?case
    unfolding k two_steps two_steps_ready
    by (simp add: AtomicUpdate_loop.simps [of "Suc n"] returned_idle
        split: sum.splits prod.splits option.splits del: fold_replicate replicate.simps)
       (blast intro: ih)
qed

lemma call_alone_is_assignPod:
  "run_calls r ctx [(podID, machine, annotations)] (replicate (2 * retries h + 2) 0) h =
     ([Returned (fst (assignPod r ctx podID machine annotations h))],
      snd (assignPod r ctx podID machine annotations h))"
proof (cases "KeyFunc (binding_store r) ctx podID")
  case (Inl err)
  then show ?thesis
    by (simp add: run_calls_def call_start_def returned_idle assignPod_def
        setPodHostAndAnnotations_def del: fold_replicate replicate.simps)
next
  case (Inr key)
  have "fold (sched_step [(podID, machine, annotations)]) (replicate (2 * retries h + 2) 0)
          ([Ready key (retries h)], h) =
     (case AtomicUpdate_loop (retries h) key
             (setPodHostAndAnnotations_func '''' machine annotations) None h of
        (err, fin, h') \<Rightarrow> ([Returned (map_option (assignPod_err podID) err)], h'))"
    by (rule ready_alone) simp
  then show ?thesis
    using Inr
    by (simp add: run_calls_def call_start_def assignPod_def setPodHostAndAnnotations_def
        AtomicUpdate_def split: prod.splits option.splits del: fold_replicate replicate.simps)
qed

section \<open>Exactly one binding wins\<close>

text \<open>
  C1: \<open>N\<close> callers bind one stored, unassigned pod, each to a non-empty host; the store's
  round trips do not fail. Each call is a call of \<open>assignPod\<close>, as \<open>Create\<close> makes it for a
  valid binding: taken on its own from any store, it returns what \<open>assignPod\<close> returns and
  leaves the store \<open>assignPod\<close> leaves. The calls take their steps in any order \<open>sched\<close> that
  lets every call run to its return (a call returns within \<open>2 * retries + 2\<close> steps of its
  own). Then one call \<open>w\<close> has returned nil and every other call has returned a Conflict.
  The store after the race is the store that \<open>assignPod\<close> for the request of \<open>w\<close> makes
  of the initial store, so the pod has \<open>Spec.Host\<close> and \<open>Status.Host\<close> equal to the host that
  \<open>w\<close> asked for; and \<open>assignPod\<close> for any other request on that store is a Conflict that
  changes nothing. The hosts need not differ.
\<close>

theorem exactly_one_binding_wins:
  assumes "KeyFunc (binding_store r) ctx podID = Inr key"
    and "get_err h = None" and "cas_err h = None"
    and "nodes h key = Some (PodObject pod, i)"
    and "spec_Host (pod_Spec pod) = ''''" and "status_Host (pod_Status pod) = ''''"
    and "reqs \<noteq> []"
    and "\<forall>q \<in> set reqs. fst q = podID \<and> fst (snd q) \<noteq> ''''"
    and "\<forall>j < length reqs. 2 * retries h + 2 \<le> count_list sched j"
  shows "(\<exists>w < length reqs.
           fst (run_calls r ctx reqs sched h) ! w = Returned None
         \<and> assignPod r ctx podID (fst (snd (reqs ! w))) (snd (snd (reqs ! w))) h =
             (None, snd (run_calls r ctx reqs sched h))
         \<and> (\<forall>j < length reqs. j \<noteq> w \<longrightarrow>
               (\<exists>err. fst (run_calls r ctx reqs sched h) ! j = Returned err \<and> is_Conflict err)
             \<and> is_Conflict (fst (assignPod r ctx podID (fst (snd (reqs ! j))) (snd (snd (reqs ! j)))
                                   (snd (run_calls r ctx reqs sched h))))
             \<and> snd (assignPod r ctx podID (fst (snd (reqs ! j))) (snd (snd (reqs ! j)))
                      (snd (run_calls r ctx reqs sched h))) =
                 snd (run_calls r ctx reqs sched h))
         \<and> (\<exists>p index. nodes (snd (run_calls r ctx reqs sched h)) key = Some (PodObject p, index)
               \<and> spec_Host (pod_Spec p) = fst (snd (reqs ! w))
               \<and> status_Host (pod_Status p) = fst (snd (reqs ! w))))
       \<and> (\<forall>j < length reqs. \<forall>h0.
             run_calls r ctx [reqs ! j] (replicate (2 * retries h0 + 2) 0) h0 =
               ([Returned (fst (assignPod r ctx podID (fst (snd (reqs ! j))) (snd (snd (reqs ! j))) h0))],
                snd (assignPod r ctx podID (fst (snd (reqs ! j))) (snd (snd (reqs ! j))) h0)))"
proof -
  let ?init = "(map (call_start r ctx h) reqs, h)"
  let ?fin = "run_calls r ctx reqs sched h"
  have run: "?fin = fold (sched_step reqs) sched ?init"
    by (simp add: run_calls_def)
  have ids: "\<forall>q \<in> set reqs. fst q = podID" and hosts: "\<forall>q \<in> set reqs. fst (snd q) \<noteq> ''''"
    using assms(8) by simp_all
  have req: "reqs ! j = (podID, fst (snd (reqs ! j)), snd (snd (reqs ! j)))"
    if "j < length reqs" for j
  proof -
    have "fst (reqs ! j) = podID"
      using ids that by simp
    then show ?thesis
      by (cases "reqs ! j") simp
  qed
  have alone: "run_calls r ctx [reqs ! j] (replicate (2 * retries h0 + 2) 0) h0 =
      ([Returned (fst (assignPod r ctx podID (fst (snd (reqs ! j))) (snd (snd (reqs ! j))) h0))],
       snd (assignPod r ctx podID (fst (snd (reqs ! j))) (snd (snd (reqs ! j))) h0))"
    if "j < length reqs" for j h0
    using call_alone_is_assignPod [of r ctx podID "fst (snd (reqs ! j))" "snd (snd (reqs ! j))" h0]
      req [OF that] by simp
  have returned: "\<exists>err. fst ?fin ! j = Returned err" if j: "j < length reqs" for j
  proof -
    have "fst (reqs ! j) = podID"
      using ids j by simp
    then have "steps_left (fst ?init ! j) = 2 * retries h + 2"
      using j by (simp add: start_steps_left [OF assms(1)])
    moreover have "steps_left (fst (fold (sched_step reqs) sched ?init) ! j) \<le>
        steps_left (fst ?init ! j) - count_list sched j"
      using j by (intro fold_sched_steps_left) simp_all
    then have "steps_left (fst ?fin ! j) \<le> steps_left (fst ?init ! j) - count_list sched j"
      by (simp only: run)
    moreover have "2 * retries h + 2 \<le> count_list sched j"
      using assms(9) j by simp
    ultimately have "steps_left (fst ?fin ! j) = 0"
      by simp
    then show ?thesis
      by (rule steps_left_0)
  qed
  have "racing key i pod reqs h ?init"
    using assms(1) ids by (rule racing_start)
  from racing_fold [OF assms(2-6) hosts this, of sched]
  have "racing key i pod reqs h ?fin \<or> (\<exists>w. decided key i pod reqs h w ?fin)"
    by (simp add: run)
  moreover have "\<not> racing key i pod reqs h ?fin"
  proof
    assume r: "racing key i pod reqs h ?fin"
    have 0: "0 < length reqs"
      using assms(7) by simp
    obtain err where "fst ?fin ! 0 = Returned err"
      using returned [OF 0] ..
    moreover have "racing_call key i pod (reqs ! 0) (fst ?fin ! 0)"
      using r 0 by (cases ?fin) (simp add: racing_def)
    ultimately show False
      by simp
  qed
  ultimately obtain w where d: "decided key i pod reqs h w ?fin"
    by blast
  obtain cs h' where s: "?fin = (cs, h')"
    by (cases ?fin)
  have w: "w < length reqs" "cs ! w = Returned None"
    and others: "\<And>k. k < length reqs \<Longrightarrow> k \<noteq> w \<Longrightarrow> losing_call key i (cs ! k)"
    using d s by (simp_all add: decided_def)
  obtain ret where ret: "setPodHostAndAnnotations_func '''' (fst (snd (reqs ! w)))
        (snd (snd (reqs ! w))) (PodObject pod) = Inr (ret, 0)"
    and h': "h' = h\<lparr>nodes := (nodes h)(key \<mapsto> (ret, Suc i))\<rparr>"
    using d s by (auto simp: decided_def)
  obtain p where p: "ret = PodObject p"
    and ph: "spec_Host (pod_Spec p) = fst (snd (reqs ! w))"
      "status_Host (pod_Status p) = fst (snd (reqs ! w))"
    using func_sets_host [OF assms(5,6) ret] by blast
  have won: "assignPod r ctx podID (fst (snd (reqs ! w))) (snd (snd (reqs ! w))) h = (None, h')"
    using assignPod_written [OF assms(1-4) ret] h' by simp
  have node: "nodes h' key = Some (PodObject p, Suc i)" and err': "get_err h' = None"
    using h' p assms(2) by simp_all
  have "reqs ! w \<in> set reqs"
    using w(1) by simp
  then have bound: "spec_Host (pod_Spec p) \<noteq> ''''"
    using hosts ph(1) by simp
  have lost: "(\<exists>err. cs ! j = Returned err \<and> is_Conflict err)
      \<and> is_Conflict (fst (assignPod r ctx podID (fst (snd (reqs ! j))) (snd (snd (reqs ! j))) h'))
      \<and> snd (assignPod r ctx podID (fst (snd (reqs ! j))) (snd (snd (reqs ! j))) h') = h'"
    if j: "j < length reqs" and jw: "j \<noteq> w" for j
  proof -
    obtain err where "cs ! j = Returned err"
      using returned [OF j] s by auto
    then have "\<exists>err. cs ! j = Returned err \<and> is_Conflict err"
      using others [OF j jw] by simp
    then show ?thesis
      using assignPod_assigned [OF assms(1) err' node bound] by simp
  qed
  have "\<exists>w < length reqs.
           fst ?fin ! w = Returned None
         \<and> assignPod r ctx podID (fst (snd (reqs ! w))) (snd (snd (reqs ! w))) h = (None, snd ?fin)
         \<and> (\<forall>j < length reqs. j \<noteq> w \<longrightarrow>
               (\<exists>err. fst ?fin ! j = Returned err \<and> is_Conflict err)
             \<and> is_Conflict (fst (assignPod r ctx podID (fst (snd (reqs ! j))) (snd (snd (reqs ! j)))
                                   (snd ?fin)))
             \<and> snd (assignPod r ctx podID (fst (snd (reqs ! j))) (snd (snd (reqs ! j)))
                      (snd ?fin)) = snd ?fin)
         \<and> (\<exists>p index. nodes (snd ?fin) key = Some (PodObject p, index)
               \<and> spec_Host (pod_Spec p) = fst (snd (reqs ! w))
               \<and> status_Host (pod_Status p) = fst (snd (reqs ! w)))"
    using w won lost node ph unfolding s fst_conv snd_conv by blast
  then show ?thesis
    using alone by blast
qed

theorem exactly_one_binding_wins_witness:
  "fst (run_calls (storage_Binding ex_storage) ex_ctx ex_reqs ex_sched (ex_helper ex_pod)) =
     [Returned (Some (NewConflict ''binding'' ''web''
                 (Errorf ''pod %v is already assigned to host %q or %q''
                    [Str ''web'', Str ''node-2'', Str ''node-2'']))),
      Returned None]
   \<and> assignPod (storage_Binding ex_storage) ex_ctx ''web'' ''node-2'' (Some [''a'' \<mapsto> ''1''])
       (ex_helper ex_pod) =
     (None, snd (run_calls (storage_Binding ex_storage) ex_ctx ex_reqs ex_sched (ex_helper ex_pod)))
   \<and> is_Conflict (fst (assignPod (storage_Binding ex_storage) ex_ctx ''web'' ''node-1'' None
       (snd (run_calls (storage_Binding ex_storage) ex_ctx ex_reqs ex_sched (ex_helper ex_pod)))))
   \<and> nodes (snd (run_calls (storage_Binding ex_storage) ex_ctx ex_reqs ex_sched (ex_helper ex_pod)))
       ''/registry/pods/web'' =
     Some (PodObject
             \<lparr>pod_Name = ''web'', pod_Annotations = Some [''b'' \<mapsto> ''2'', ''a'' \<mapsto> ''1''],
              pod_Spec = \<lparr>spec_Host = ''node-2'', spec_rest = ''nginx''\<rparr>,
              pod_Status = \<lparr>status_Host = ''node-2'', status_rest = ''Pending''\<rparr>\<rparr>, 8)"
proof -
  let ?B = "storage_Binding ex_storage"
  let ?run = "run_calls ?B ex_ctx ex_reqs ex_sched (ex_helper ex_pod)"
  have hosts: "spec_Host (pod_Spec ex_pod) = ''''" "status_Host (pod_Status ex_pod) = ''''"
    by (simp_all add: ex_pod_def)
  have some: "ex_reqs \<noteq> []"
    by (simp add: ex_reqs_def)
  have reqs: "\<forall>q \<in> set ex_reqs. fst q = ''web'' \<and> fst (snd q) \<noteq> ''''"
    by (simp add: ex_reqs_def)
  have fair: "\<forall>j < length ex_reqs. 2 * retries (ex_helper ex_pod) + 2 \<le> count_list ex_sched j"
    by (simp add: ex_reqs_def ex_sched_def ex_helper_def All_less_Suc)
  have cs: "fst ?run =
       [Returned (Some (NewConflict ''binding'' ''web''
                   (Errorf ''pod %v is already assigned to host %q or %q''
                      [Str ''web'', Str ''node-2'', Str ''node-2'']))),
        Returned None]"
    by (simp add: run_calls_def ex_reqs_def ex_sched_def call_start_def ex_key sched_step_def
        call_step_def etcd_get_def etcd_cas_def ex_helper_def ex_pod_def
        setPodHostAndAnnotations_func_def range_assign_def assignPod_err_cases)
  have node: "nodes (snd ?run) ''/registry/pods/web'' =
     Some (PodObject
             \<lparr>pod_Name = ''web'', pod_Annotations = Some [''b'' \<mapsto> ''2'', ''a'' \<mapsto> ''1''],
              pod_Spec = \<lparr>spec_Host = ''node-2'', spec_rest = ''nginx''\<rparr>,
              pod_Status = \<lparr>status_Host = ''node-2'', status_rest = ''Pending''\<rparr>\<rparr>, 8)"
    by (simp add: run_calls_def ex_reqs_def ex_sched_def call_start_def ex_key sched_step_def
        call_step_def etcd_get_def etcd_cas_def ex_helper_def ex_pod_def
        setPodHostAndAnnotations_func_def range_assign_def assignPod_err_cases)
  from exactly_one_binding_wins [OF ex_key ex_helper_simps hosts some reqs fair, of ex_ctx]
  obtain w where w: "w < length ex_reqs" "fst ?run ! w = Returned None"
    and won: "assignPod ?B ex_ctx ''web'' (fst (snd (ex_reqs ! w))) (snd (snd (ex_reqs ! w)))
        (ex_helper ex_pod) = (None, snd ?run)"
    and lost: "\<And>j. j < length ex_reqs \<Longrightarrow> j \<noteq> w \<Longrightarrow>
        is_Conflict (fst (assignPod ?B ex_ctx ''web'' (fst (snd (ex_reqs ! j)))
          (snd (snd (ex_reqs ! j))) (snd ?run)))"
    by blast
  have "w = 0 \<or> w = 1"
    using w(1) by (auto simp: ex_reqs_def)
  then have w1: "w = 1"
    using w(2) cs by auto
  have "is_Conflict (fst (assignPod ?B ex_ctx ''web'' (fst (snd (ex_reqs ! 0)))
          (snd (snd (ex_reqs ! 0))) (snd ?run)))"
    using lost [of 0] w1 by (simp add: ex_reqs_def)
  then show ?thesis
    using cs node won w1 by (simp add: ex_reqs_def)
qed

section \<open>The status endpoint\<close>

lemma NewStorage_Status:
  "KeyFunc (status_store (storage_Status (NewStorage k s))) ctx name = k ctx ''/registry/pods'' name"
  "UpdateStrategy (status_store (storage_Status (NewStorage k s))) = Some StatusStrategy"
  "ObjectNameFunc (status_store (storage_Status (NewStorage k s))) (PodObject pod) =
     Some (Inr (pod_Name pod))"
  by (simp_all add: NewStorage_def Let_def)

text \<open>
  C9: on the storage that \<open>NewStorage\<close> assembles, whatever the strategy of the pod
  endpoint, a status update of a stored pod succeeds and stores the payload with the spec
  of the pod stored before: the spec is the old one, the status (and the rest of the
  payload) is the caller's.
\<close>

theorem status_update_keeps_spec:
  assumes "NamespaceKeyFunc ctx ''/registry/pods'' (pod_Name new) = Inr key"
    and "get_err h = None" and "cas_err h = None"
    and "nodes h key = Some (PodObject old, i)"
  shows "StatusREST_Update (storage_Status (NewStorage NamespaceKeyFunc pod_Strategy)) ctx
           (PodObject new) h =
         Some ((Some (PodObject (new\<lparr>pod_Spec := pod_Spec old\<rparr>)), False, None),
               h\<lparr>nodes := (nodes h)(key \<mapsto> (PodObject (new\<lparr>pod_Spec := pod_Spec old\<rparr>), Suc i))\<rparr>)
       \<and> pod_Spec (new\<lparr>pod_Spec := pod_Spec old\<rparr>) = pod_Spec old
       \<and> pod_Status (new\<lparr>pod_Spec := pod_Spec old\<rparr>) = pod_Status new"
proof -
  let ?f = "\<lambda>existing. case existing of
              PodObject old \<Rightarrow> Inr (PodObject (PrepareForUpdate StatusStrategy new old), 0::nat)
            | _ \<Rightarrow> Inl (Errorf ''unexpected object: %#v'' [Obj existing])"
  have "?f (PodObject old) = Inr (PodObject (new\<lparr>pod_Spec := pod_Spec old\<rparr>), 0)"
    by (simp add: StatusStrategy_def)
  from AtomicUpdate_written [of h key "PodObject old" i ?f, OF assms(2,3,4) this]
  show ?thesis
    using assms(1) by (simp add: StatusREST_Update_def Update_def NewStorage_Status)
qed

theorem status_update_keeps_spec_witness:
  "StatusREST_Update (storage_Status ex_storage) ex_ctx (PodObject ex_status_update)
       (ex_helper ex_bound_pod) =
     Some ((Some (PodObject
              \<lparr>pod_Name = ''web'', pod_Annotations = Some [''b'' \<mapsto> ''2''],
               pod_Spec = \<lparr>spec_Host = ''node-1'', spec_rest = ''nginx''\<rparr>,
               pod_Status = \<lparr>status_Host = ''node-1'', status_rest = ''Running''\<rparr>\<rparr>),
            False, None),
           \<lparr>nodes = [''/registry/pods/web'' \<mapsto>
              (PodObject
                \<lparr>pod_Name = ''web'', pod_Annotations = Some [''b'' \<mapsto> ''2''],
                 pod_Spec = \<lparr>spec_Host = ''node-1'', spec_rest = ''nginx''\<rparr>,
                 pod_Status = \<lparr>status_Host = ''node-1'', status_rest = ''Running''\<rparr>\<rparr>, 8)],
            get_err = None, cas_err = None, retries = 2\<rparr>)"
proof -
  have key: "ex_KeyFunc ex_ctx ''/registry/pods'' (pod_Name ex_status_update) =
      Inr ''/registry/pods/web''"
    by (simp add: ex_KeyFunc_def ex_status_update_def)
  show ?thesis
    using status_update_keeps_spec [where NamespaceKeyFunc = ex_KeyFunc and ctx = ex_ctx
        and new = ex_status_update and h = "ex_helper ex_bound_pod" and old = ex_bound_pod
        and pod_Strategy = ex_Strategy, OF key ex_helper_simps]
    by (simp add: ex_storage_def ex_status_update_def ex_bound_pod_def ex_pod_def ex_helper_def)
qed

end
